theory Spec2Isabelle
  imports Main "HOL-Library.Sublist"
begin

section \<open>JavaScript values used by the gateway code\<close>

text \<open>
  Strings are \<^typ>\<open>string\<close>. A JavaScript string is falsy exactly when it is empty, and
  \<open>null\<close>/\<open>undefined\<close> are falsy; an optional string is therefore truthy exactly when it
  is present and non-empty.
\<close>

definition truthy :: "string option \<Rightarrow> bool" where
  "truthy v = (case v of None \<Rightarrow> False | Some s \<Rightarrow> s \<noteq> [])"

text \<open>Everything that is thrown, or that a promise is rejected with, in the modelled code.\<close>

datatype error =
    NetworkError
  | NoSetCookie
  | CsrfCookieNotFound
  | JsonSyntaxError
  | TypeError

text \<open>
  Lowercasing of one ASCII character: the letters \<open>A\<close> to \<open>Z\<close> move to \<open>a\<close> to \<open>z\<close>,
  everything else stays.
\<close>

definition toLowerCase_char :: "char \<Rightarrow> char" where
  "toLowerCase_char c =
     (let n = (of_char c :: nat) in if 65 \<le> n \<and> n \<le> 90 then char_of (n + 32) else c)"

definition is_ascii :: "string \<Rightarrow> bool" where
  "is_ascii s = list_all (\<lambda>c. (of_char c :: nat) < 128) s"

section \<open>The federated data source (\<open>HmacRemoteGraphQLDataSource\<close>)\<close>

text \<open>
  \<open>GatewayContext\<close> has one optional field. The context itself is read with \<open>context?.user\<close>,
  so it may be missing as a whole.
\<close>

record gateway_context =
  user :: "string option"

text \<open>
  The \<open>http\<close> part of a \<open>GraphQLRequest\<close>: method, target URL and a \<open>Headers\<close> object. The
  \<open>http\<close> part is optional (\<open>request.http?.\<close> in the source). A \<open>Headers\<close> object treats
  names without regard to case: it is a map from lowercased names to values.
\<close>

record http_part =
  http_method :: string
  http_url :: string
  http_headers :: "string \<rightharpoonup> string"

record graphql_request =
  gql_query :: "string option"
  http :: "http_part option"

definition header_key :: "string \<Rightarrow> string" where
  "header_key name = map toLowerCase_char name"

text \<open>
  \<open>HmacSignerService\<close> is injected into the data source; the data source uses two of its
  methods. \<open>signGraphQLRequest\<close> returns the header value, or nothing.
\<close>

record hmac_signer =
  isEnabled :: bool
  signGraphQLRequest :: "string \<Rightarrow> string option"

text \<open>
  The \<open>Headers\<close> class comes with the fetch implementation in use, which is not part of the
  repository. Its \<open>set\<close> may normalise the value (strip surrounding white space) and throws
  a \<open>TypeError\<close> when the value is not a legal header value; both are taken as given. The
  two names the data source sets, \<open>user\<close> and \<open>X-HMAC-Auth\<close>, are legal header names.
\<close>

record headers_impl =
  normalize_value :: "string \<Rightarrow> string"
  valid_value :: "string \<Rightarrow> bool"

text \<open>
  \<open>request.http?.headers.set(name, value)\<close>: nothing happens when the http part is missing.
  Otherwise the call throws and leaves the headers as they are, or stores the value under
  the lowercased name. The result is what was thrown, if anything, and the request after
  the call.
\<close>

definition headers_set ::
  "headers_impl \<Rightarrow> graphql_request \<Rightarrow> string \<Rightarrow> string \<Rightarrow> error option \<times> graphql_request" where
  "headers_set impl request name v =
     (case http request of
        None \<Rightarrow> (None, request)
      | Some h \<Rightarrow>
          (let v' = normalize_value impl v in
           if valid_value impl v'
           then (None, request\<lparr>http := Some (h\<lparr>http_headers := (http_headers h)(header_key name \<mapsto> v')\<rparr>)\<rparr>)
           else (Some TypeError, request)))"

text \<open>
  \<open>headers.get(name)\<close> on the request; a request without http part carries no header.
\<close>

definition header_of :: "graphql_request \<Rightarrow> string \<Rightarrow> string option" where
  "header_of request name =
     (case http request of None \<Rightarrow> None | Some h \<Rightarrow> http_headers h (header_key name))"

text \<open>\<open>context?.user\<close> and \<open>request.http?.url\<close>.\<close>

definition context_user :: "gateway_context option \<Rightarrow> string option" where
  "context_user context = (case context of None \<Rightarrow> None | Some c \<Rightarrow> user c)"

definition request_url :: "graphql_request \<Rightarrow> string option" where
  "request_url request = (case http request of None \<Rightarrow> None | Some h \<Rightarrow> Some (http_url h))"

text \<open>
  \<open>willSendRequest\<close> mutates the request; the model returns what was thrown, if anything,
  and the request after the call. First the user is forwarded, then the request is
  signed. An error thrown while forwarding the user ends the call: the request is not
  signed.
\<close>

definition forward_user ::
  "headers_impl \<Rightarrow> graphql_request \<Rightarrow> gateway_context option \<Rightarrow> error option \<times> graphql_request" where
  "forward_user impl request context =
     (case context_user context of
        Some u \<Rightarrow> if u \<noteq> [] then headers_set impl request ''user'' u else (None, request)
      | None \<Rightarrow> (None, request))"

definition sign_request ::
  "headers_impl \<Rightarrow> hmac_signer \<Rightarrow> graphql_request \<Rightarrow> error option \<times> graphql_request" where
  "sign_request impl hmacSigner request =
     (if isEnabled hmacSigner
      then (case request_url request of
              Some url \<Rightarrow>
                if url \<noteq> []
                then (case signGraphQLRequest hmacSigner url of
                        Some hmacHeader \<Rightarrow>
                          if hmacHeader \<noteq> []
                          then headers_set impl request ''X-HMAC-Auth'' hmacHeader
                          else (None, request)
                      | None \<Rightarrow> (None, request))
                else (None, request)
            | None \<Rightarrow> (None, request))
      else (None, request))"

definition willSendRequest ::
  "headers_impl \<Rightarrow> hmac_signer \<Rightarrow> graphql_request \<Rightarrow> gateway_context option
     \<Rightarrow> error option \<times> graphql_request" where
  "willSendRequest impl hmacSigner request context =
     (case forward_user impl request context of
        (Some err, request') \<Rightarrow> (Some err, request')
      | (None, request') \<Rightarrow> sign_request impl hmacSigner request')"

text \<open>Concrete signers, requests and a \<open>Headers\<close> class used to exercise the data source.\<close>

definition disabledSigner :: hmac_signer where
  "disabledSigner = \<lparr>isEnabled = False, signGraphQLRequest = (\<lambda>url. Some ''HMAC {}'')\<rparr>"

definition enabledSigner :: hmac_signer where
  "enabledSigner = \<lparr>isEnabled = True, signGraphQLRequest = (\<lambda>url. Some (''HMAC '' @ url))\<rparr>"

definition silentSigner :: hmac_signer where
  "silentSigner = \<lparr>isEnabled = True, signGraphQLRequest = (\<lambda>url. Some [])\<rparr>"

text \<open>
  A \<open>Headers\<close> class that stores values as given and rejects control characters other than
  the tab.
\<close>

definition strictHeaders :: headers_impl where
  "strictHeaders =
     \<lparr>normalize_value = (\<lambda>v. v),
      valid_value = list_all (\<lambda>c. (of_char c :: nat) = 9 \<or> (32 \<le> (of_char c :: nat) \<and> (of_char c :: nat) \<noteq> 127))\<rparr>"

definition usersRequest :: graphql_request where
  "usersRequest =
     \<lparr>gql_query = Some ''{ me { id } }'',
      http = Some \<lparr>http_method = ''POST'', http_url = ''http://localhost:3001/graphql'',
                   http_headers = Map.empty\<rparr>\<rparr>"

definition bareRequest :: graphql_request where
  "bareRequest = \<lparr>gql_query = Some ''{ me { id } }'', http = None\<rparr>"

definition emptyUrlRequest :: graphql_request where
  "emptyUrlRequest =
     \<lparr>gql_query = Some ''{ me { id } }'',
      http = Some \<lparr>http_method = ''POST'', http_url = [], http_headers = Map.empty\<rparr>\<rparr>"

definition u1Context :: "gateway_context option" where
  "u1Context = Some \<lparr>user = Some ''u-1''\<rparr>"

definition brokenUserContext :: "gateway_context option" where
  "brokenUserContext = Some \<lparr>user = Some (''u'' @ [CHR 0x0A] @ ''1'')\<rparr>"

section \<open>JSON bodies\<close>

text \<open>
  The value that \<open>response.json()\<close> resolves to. An object is the list of its own
  properties in insertion order, with distinct keys (what \<open>JSON.parse\<close> builds). Numbers are
  kept as integers; no function below computes with them.
\<close>

datatype json =
    JNull
  | JBool bool
  | JNum int
  | JStr string
  | JArr "json list"
  | JObj "(string \<times> json) list"

text \<open>
  \<open>String.prototype.includes\<close>: \<open>str_includes s sub\<close> holds when \<open>sub\<close> occurs in \<open>s\<close> as a
  contiguous run of characters.
\<close>

fun str_includes :: "string \<Rightarrow> string \<Rightarrow> bool" where
  "str_includes [] sub = (sub = [])"
| "str_includes (c # cs) sub = (prefix sub (c # cs) \<or> str_includes cs sub)"

text \<open>
  \<open>errorBody.message\<close>: reading a property of \<open>null\<close> throws a \<open>TypeError\<close>; an object yields
  its own property or \<open>undefined\<close>; strings, numbers, booleans and arrays have no property
  \<open>message\<close>.
\<close>

fun get_message :: "json \<Rightarrow> error + json option" where
  "get_message JNull = Inl TypeError"
| "get_message (JObj props) = Inr (map_of props ''message'')"
| "get_message _ = Inr None"

text \<open>
  \<open>message?.includes('CSRF')\<close>, as a condition. \<open>undefined\<close> and \<open>null\<close> short-circuit to a
  falsy \<open>undefined\<close>. A string is searched for the substring. An array has its own
  \<open>includes\<close>, which looks for an element equal to the string. Numbers, booleans and objects
  have no callable \<open>includes\<close>: the call throws a \<open>TypeError\<close>.
\<close>

fun optional_includes_CSRF :: "json option \<Rightarrow> error + bool" where
  "optional_includes_CSRF None = Inr False"
| "optional_includes_CSRF (Some JNull) = Inr False"
| "optional_includes_CSRF (Some (JStr m)) = Inr (str_includes m ''CSRF'')"
| "optional_includes_CSRF (Some (JArr xs)) = Inr (JStr ''CSRF'' \<in> set xs)"
| "optional_includes_CSRF (Some _) = Inl TypeError"

definition message_includes_CSRF :: "json \<Rightarrow> error + bool" where
  "message_includes_CSRF errorBody =
     (case get_message errorBody of
        Inl e \<Rightarrow> Inl e
      | Inr m \<Rightarrow> optional_includes_CSRF m)"

section \<open>The gateway seen through \<open>fetch\<close>\<close>

text \<open>Configuration read from the environment when the module is loaded.\<close>

record env =
  env_API_GATEWAY_URL :: "string option"
  env_GATEWAY_HMAC_SECRET :: "string option"
  env_GATEWAY_CLIENT_ID :: "string option"

text \<open>\<open>process.env.X || fallback\<close>: the fallback also replaces an empty string.\<close>

definition or_default :: "string option \<Rightarrow> string \<Rightarrow> string" where
  "or_default v fallback = (case v of None \<Rightarrow> fallback | Some s \<Rightarrow> if s \<noteq> [] then s else fallback)"

definition API_GATEWAY_URL :: "env \<Rightarrow> string" where
  "API_GATEWAY_URL e = or_default (env_API_GATEWAY_URL e) ''http://localhost:3000''"

definition API_GATEWAY_PATH :: string where
  "API_GATEWAY_PATH = ''/api''"

definition HMAC_SECRET :: "env \<Rightarrow> string" where
  "HMAC_SECRET e = or_default (env_GATEWAY_HMAC_SECRET e) ''integration-test-hmac-secret''"

definition HMAC_CLIENT_ID :: "env \<Rightarrow> string" where
  "HMAC_CLIENT_ID e = or_default (env_GATEWAY_CLIENT_ID e) ''api-gateway''"

text \<open>
  A call of \<open>fetch\<close>: URL, method, headers and, for a POST, the body. The body is
  \<open>JSON.stringify({ query, variables })\<close>; the model keeps the two parts.
\<close>

type_synonym variables = "(string \<times> json) list"

record fetch_request =
  fetch_url :: string
  fetch_method :: string
  fetch_headers :: "string \<rightharpoonup> string"
  fetch_body :: "(string \<times> variables option) option"

text \<open>
  What the code reads of a response: the status, \<open>headers.get('set-cookie')\<close>, and the
  result of \<open>json()\<close>, which is \<open>None\<close> when the body is not JSON (\<open>json()\<close> then rejects with
  a \<open>SyntaxError\<close>).
\<close>

record response =
  status :: nat
  set_cookie :: "string option"
  body :: "json option"

text \<open>\<open>fetch\<close> resolves to a response, or rejects when the network fails.\<close>

datatype fetch_result = Rejected | Responded response

text \<open>
  The gateway is any deterministic machine: from its state and a request it gives the
  outcome of the call and its next state.
\<close>

type_synonym 'g gateway = "'g \<Rightarrow> fetch_request \<Rightarrow> fetch_result \<times> 'g"

text \<open>
  The state a call runs in: the two module-level cache variables, the gateway's state, and
  the calls of \<open>fetch\<close> made so far, oldest first. Each function below takes the state and
  returns its result with the state after the call; a rejected promise or a thrown error
  is the result \<open>Inl\<close>. A function runs from start to end without other code in between,
  except where it is split at its \<open>await\<close> below.
\<close>

record 'g world =
  csrfToken :: "string option"
  csrfCookie :: "string option"
  gateway_state :: 'g
  sent :: "fetch_request list"

definition fetch :: "'g gateway \<Rightarrow> fetch_request \<Rightarrow> 'g world \<Rightarrow> fetch_result \<times> 'g world" where
  "fetch serve rq w =
     (case serve (gateway_state w) rq of
        (res, g') \<Rightarrow> (res, w\<lparr>gateway_state := g', sent := sent w @ [rq]\<rparr>))"

definition response_json :: "response \<Rightarrow> error + json" where
  "response_json r = (case body r of None \<Rightarrow> Inl JsonSyntaxError | Some j \<Rightarrow> Inr j)"

definition posts_sent :: "'g world \<Rightarrow> nat" where
  "posts_sent w = length (filter (\<lambda>rq. fetch_method rq = ''POST'') (sent w))"

section \<open>CSRF token management\<close>

record csrf_pair =
  token :: string
  cookie :: string

text \<open>
  The regular expression \<open>/csrf-token=([^;]+)/\<close>. \<open>match_here\<close> tries it at the start of the
  string: the literal, then the longest non-empty run of characters other than \<open>;\<close>, which
  is capture group 1. \<open>csrf_token_exec\<close> is \<open>exec\<close>: the leftmost position where it matches.
  The pattern is ASCII, so it matches the same places in the bytes of a string as in its
  UTF-16 code units.
\<close>

definition match_here :: "string \<Rightarrow> string option" where
  "match_here s =
     (if prefix ''csrf-token='' s
      then (let v = takeWhile (\<lambda>c. c \<noteq> CHR '';'') (drop (length ''csrf-token='') s)
            in if v \<noteq> [] then Some v else None)
      else None)"

fun csrf_token_exec :: "string \<Rightarrow> string option" where
  "csrf_token_exec [] = None"
| "csrf_token_exec (c # cs) =
     (case match_here (c # cs) of
        Some v \<Rightarrow> Some v
      | None \<Rightarrow> csrf_token_exec cs)"

definition csrf_bootstrap_request :: "env \<Rightarrow> fetch_request" where
  "csrf_bootstrap_request e =
     \<lparr>fetch_url = API_GATEWAY_URL e @ API_GATEWAY_PATH,
      fetch_method = ''GET'',
      fetch_headers = [''Content-Type'' \<mapsto> ''application/json''],
      fetch_body = None\<rparr>"

definition fetchCsrfToken :: "env \<Rightarrow> 'g gateway \<Rightarrow> 'g world \<Rightarrow> (error + csrf_pair) \<times> 'g world" where
  "fetchCsrfToken e serve w =
     (case fetch serve (csrf_bootstrap_request e) w of
        (Rejected, w') \<Rightarrow> (Inl NetworkError, w')
      | (Responded r, w') \<Rightarrow>
          (case set_cookie r of
             None \<Rightarrow> (Inl NoSetCookie, w')
           | Some setCookie \<Rightarrow>
               if setCookie = [] then (Inl NoSetCookie, w')
               else (case csrf_token_exec setCookie of
                       None \<Rightarrow> (Inl CsrfCookieNotFound, w')
                     | Some t \<Rightarrow> (Inr \<lparr>token = t, cookie = ''csrf-token='' @ t\<rparr>, w'))))"

text \<open>
  The cache holds a pair when both variables are truthy (\<open>!csrfToken || !csrfCookie\<close> is
  false).
\<close>

definition cached_pair :: "'g world \<Rightarrow> csrf_pair option" where
  "cached_pair w =
     (case csrfToken w of
        None \<Rightarrow> None
      | Some t \<Rightarrow>
          (case csrfCookie w of
             None \<Rightarrow> None
           | Some c \<Rightarrow> if t \<noteq> [] \<and> c \<noteq> [] then Some \<lparr>token = t, cookie = c\<rparr> else None))"

definition getCsrfToken :: "env \<Rightarrow> 'g gateway \<Rightarrow> 'g world \<Rightarrow> (error + csrf_pair) \<times> 'g world" where
  "getCsrfToken e serve w =
     (case cached_pair w of
        Some p \<Rightarrow> (Inr p, w)
      | None \<Rightarrow>
          (case fetchCsrfToken e serve w of
             (Inl err, w') \<Rightarrow> (Inl err, w')
           | (Inr result, w') \<Rightarrow>
               (Inr result, w'\<lparr>csrfToken := Some (token result), csrfCookie := Some (cookie result)\<rparr>)))"

definition clearCsrfToken :: "'g world \<Rightarrow> 'g world" where
  "clearCsrfToken w = w\<lparr>csrfToken := None, csrfCookie := None\<rparr>"

text \<open>
  \<open>getCsrfToken\<close> in two steps, split at its \<open>await\<close>. The first step tests the cache and, on
  a miss, sends the bootstrap GET; the call then waits for the response. The second step
  runs when the response is there: it reads the cookie, stores the pair and returns it.
  Other code can run between the two steps.
\<close>

datatype pending_csrf = CacheHit csrf_pair | AwaitingBootstrap fetch_result

definition csrf_pair_of :: "fetch_result \<Rightarrow> error + csrf_pair" where
  "csrf_pair_of res =
     (case res of
        Rejected \<Rightarrow> Inl NetworkError
      | Responded r \<Rightarrow>
          (case set_cookie r of
             None \<Rightarrow> Inl NoSetCookie
           | Some setCookie \<Rightarrow>
               if setCookie = [] then Inl NoSetCookie
               else (case csrf_token_exec setCookie of
                       None \<Rightarrow> Inl CsrfCookieNotFound
                     | Some t \<Rightarrow> Inr \<lparr>token = t, cookie = ''csrf-token='' @ t\<rparr>)))"

definition getCsrfToken_begin :: "env \<Rightarrow> 'g gateway \<Rightarrow> 'g world \<Rightarrow> pending_csrf \<times> 'g world" where
  "getCsrfToken_begin e serve w =
     (case cached_pair w of
        Some p \<Rightarrow> (CacheHit p, w)
      | None \<Rightarrow>
          (case fetch serve (csrf_bootstrap_request e) w of
             (res, w') \<Rightarrow> (AwaitingBootstrap res, w')))"

definition getCsrfToken_resume :: "pending_csrf \<Rightarrow> 'g world \<Rightarrow> (error + csrf_pair) \<times> 'g world" where
  "getCsrfToken_resume pending w =
     (case pending of
        CacheHit p \<Rightarrow> (Inr p, w)
      | AwaitingBootstrap res \<Rightarrow>
          (case csrf_pair_of res of
             Inl err \<Rightarrow> (Inl err, w)
           | Inr result \<Rightarrow>
               (Inr result, w\<lparr>csrfToken := Some (token result), csrfCookie := Some (cookie result)\<rparr>)))"


section \<open>GraphQL requests through the gateway\<close>

text \<open>
  The POST of \<open>graphqlRequest\<close>. The caller's headers are spread last and so override the
  three fixed ones.
\<close>

definition post_request ::
  "env \<Rightarrow> csrf_pair \<Rightarrow> string \<Rightarrow> variables option \<Rightarrow> (string \<rightharpoonup> string) \<Rightarrow> fetch_request" where
  "post_request e csrf query vars headers =
     \<lparr>fetch_url = API_GATEWAY_URL e @ API_GATEWAY_PATH,
      fetch_method = ''POST'',
      fetch_headers =
        [''Content-Type'' \<mapsto> ''application/json'', ''Cookie'' \<mapsto> cookie csrf,
         ''x-csrf-token'' \<mapsto> token csrf] ++ headers,
      fetch_body = Some (query, vars)\<rparr>"

text \<open>The block run on a CSRF error: clear the cache, get a pair, send again, return.\<close>

definition retry_once ::
  "env \<Rightarrow> 'g gateway \<Rightarrow> string \<Rightarrow> variables option \<Rightarrow> (string \<rightharpoonup> string) \<Rightarrow> 'g world
     \<Rightarrow> (error + json) \<times> 'g world" where
  "retry_once e serve query vars headers w =
     (case getCsrfToken e serve (clearCsrfToken w) of
        (Inl err, w') \<Rightarrow> (Inl err, w')
      | (Inr newCsrf, w') \<Rightarrow>
          (case fetch serve (post_request e newCsrf query vars headers) w' of
             (Rejected, w'') \<Rightarrow> (Inl NetworkError, w'')
           | (Responded retryResponse, w'') \<Rightarrow> (response_json retryResponse, w'')))"

text \<open>What is done with the first response.\<close>

definition handle_response ::
  "env \<Rightarrow> 'g gateway \<Rightarrow> string \<Rightarrow> variables option \<Rightarrow> (string \<rightharpoonup> string) \<Rightarrow> response
     \<Rightarrow> 'g world \<Rightarrow> (error + json) \<times> 'g world" where
  "handle_response e serve query vars headers r w =
     (if status r = 403
      then (case response_json r of
              Inl err \<Rightarrow> (Inl err, w)
            | Inr errorBody \<Rightarrow>
                (case message_includes_CSRF errorBody of
                   Inl err \<Rightarrow> (Inl err, w)
                 | Inr csrfError \<Rightarrow>
                     if csrfError then retry_once e serve query vars headers w
                     else (Inr errorBody, w)))
      else (response_json r, w))"

definition graphqlRequest ::
  "env \<Rightarrow> 'g gateway \<Rightarrow> string \<Rightarrow> variables option \<Rightarrow> (string \<rightharpoonup> string) \<Rightarrow> 'g world
     \<Rightarrow> (error + json) \<times> 'g world" where
  "graphqlRequest e serve query vars headers w =
     (case getCsrfToken e serve w of
        (Inl err, w') \<Rightarrow> (Inl err, w')
      | (Inr csrf, w') \<Rightarrow>
          (case fetch serve (post_request e csrf query vars headers) w' of
             (Rejected, w'') \<Rightarrow> (Inl NetworkError, w'')
           | (Responded r, w'') \<Rightarrow> handle_response e serve query vars headers r w''))"

section \<open>Mock gateways and starting states\<close>

text \<open>
  A scripted gateway, as a test would mock \<open>fetch\<close>: every GET is answered with status 200
  and the given \<open>Set-Cookie\<close> header; the POSTs are answered with the given responses in
  order, and the network fails once they are used up. The state counts the POSTs answered.
\<close>

definition scriptedGateway :: "string option \<Rightarrow> response list \<Rightarrow> nat gateway" where
  "scriptedGateway setCookie answers n rq =
     (if fetch_method rq = ''GET''
      then (Responded \<lparr>status = 200, set_cookie = setCookie, body = None\<rparr>, n)
      else (case drop n answers of
              [] \<Rightarrow> (Rejected, n)
            | r # _ \<Rightarrow> (Responded r, Suc n)))"


definition csrf403 :: response where
  "csrf403 = \<lparr>status = 403, set_cookie = None,
              body = Some (JObj [(''statusCode'', JNum 403), (''message'', JStr ''invalid CSRF token'')])\<rparr>"

definition forbidden403 :: response where
  "forbidden403 = \<lparr>status = 403, set_cookie = None,
                   body = Some (JObj [(''statusCode'', JNum 403), (''message'', JStr ''Forbidden'')])\<rparr>"

definition ok200 :: response where
  "ok200 = \<lparr>status = 200, set_cookie = None, body = Some (JObj [(''data'', JObj [])])\<rparr>"

definition coldWorld :: "nat world" where
  "coldWorld = \<lparr>csrfToken = None, csrfCookie = None, gateway_state = 0, sent = []\<rparr>"

definition warmWorld :: "nat world" where
  "warmWorld = \<lparr>csrfToken = Some ''stale'', csrfCookie = Some ''csrf-token=stale'',
                 gateway_state = 0, sent = []\<rparr>"

definition noHeaders :: "string \<rightharpoonup> string" where
  "noHeaders = Map.empty"

definition meQuery :: string where
  "meQuery = ''{ me { id } }''"

definition cookieHeader :: string where
  "cookieHeader = ''csrf-token=abc123; Path=/''"

definition testEnv :: env where
  "testEnv = \<lparr>env_API_GATEWAY_URL = None, env_GATEWAY_HMAC_SECRET = Some ''s3cr3t'',
               env_GATEWAY_CLIENT_ID = None\<rparr>"

text \<open>
  How the log of calls grows between two states: by at most \<open>k\<close> calls, at most \<open>j\<close> of
  them POSTs, all of them to the gateway's GraphQL endpoint.
\<close>

definition log_grows :: "env \<Rightarrow> nat \<Rightarrow> nat \<Rightarrow> 'g world \<Rightarrow> 'g world \<Rightarrow> bool" where
  "log_grows e k j w w' =
     (\<exists>new. sent w' = sent w @ new \<and> length new \<le> k
        \<and> length (filter (\<lambda>rq. fetch_method rq = ''POST'') new) \<le> j
        \<and> list_all (\<lambda>rq. fetch_url rq = API_GATEWAY_URL e @ API_GATEWAY_PATH) new)"

section \<open>HMAC header for direct service access\<close>

text \<open>
  Two functions of the JavaScript runtime are taken as given: the keyed hash
  \<open>crypto.createHmac('sha256', key).update(message).digest('base64')\<close>, as a function of the
  key and the message, and the Unicode case mapping behind \<open>String.prototype.toLowerCase\<close>.
\<close>

record js_runtime =
  hmac_sha256_base64 :: "string \<Rightarrow> string \<Rightarrow> string"
  unicode_toLowerCase :: "string \<Rightarrow> string"

text \<open>
  \<open>String.prototype.toLowerCase\<close>. On a string of ASCII characters the letters \<open>A\<close> to \<open>Z\<close>
  move to \<open>a\<close> to \<open>z\<close> and everything else stays. A string with other characters (bytes from
  128 on, in UTF-8) goes through the runtime's Unicode case mapping.
\<close>

definition toLowerCase :: "js_runtime \<Rightarrow> string \<Rightarrow> string" where
  "toLowerCase rt s = (if is_ascii s then map toLowerCase_char s else unicode_toLowerCase rt s)"

text \<open>
  \<open>JSON.stringify\<close> of a string: in double quotes, with the quote and the backslash escaped,
  the control characters written as \<open>\b \t \n \f \r\<close> or as \<open>\u00XX\<close> with lowercase hex digits,
  and every other character as it is.
\<close>

definition hex_digit :: "nat \<Rightarrow> char" where
  "hex_digit n = (if n < 10 then char_of (48 + n) else char_of (87 + n))"

definition json_escape :: "char \<Rightarrow> string" where
  "json_escape c =
     (let n = (of_char c :: nat) in
      if n = 34 then [CHR 0x5C, CHR 0x22]
      else if n = 92 then [CHR 0x5C, CHR 0x5C]
      else if n = 8 then [CHR 0x5C, CHR ''b'']
      else if n = 9 then [CHR 0x5C, CHR ''t'']
      else if n = 10 then [CHR 0x5C, CHR ''n'']
      else if n = 12 then [CHR 0x5C, CHR ''f'']
      else if n = 13 then [CHR 0x5C, CHR ''r'']
      else if n < 32 then [CHR 0x5C, CHR ''u'', CHR ''0'', CHR ''0'', hex_digit (n div 16), hex_digit (n mod 16)]
      else [c])"

definition json_quote :: "string \<Rightarrow> string" where
  "json_quote s = [CHR 0x22] @ concat (map json_escape s) @ [CHR 0x22]"

text \<open>
  \<open>JSON.stringify\<close> of an object whose property values are strings, as \<open>credentials\<close> is:
  the properties in insertion order, separated by commas, without spaces.
\<close>

fun join_commas :: "string list \<Rightarrow> string" where
  "join_commas [] = []"
| "join_commas [x] = x"
| "join_commas (x # y # ys) = x @ '','' @ join_commas (y # ys)"

definition JSON_stringify :: "(string \<times> string) list \<Rightarrow> string" where
  "JSON_stringify props =
     ''{'' @ join_commas (map (\<lambda>(k, v). json_quote k @ '':'' @ json_quote v) props) @ ''}''"

text \<open>\<open>generateHmacHeader\<close>. A missing \<open>contentType\<close> takes the default.\<close>

definition generateHmacHeader ::
  "js_runtime \<Rightarrow> env \<Rightarrow> string \<Rightarrow> string \<Rightarrow> string option \<Rightarrow> string" where
  "generateHmacHeader rt e method path contentType =
     (let contentType = (case contentType of None \<Rightarrow> ''application/json'' | Some c \<Rightarrow> c);
          headers = ''@request-target,content-type'';
          signatureString =
            toLowerCase rt method @ '' '' @ path @ [CHR 0x0A] @ ''content-type: '' @ contentType;
          signature = hmac_sha256_base64 rt (HMAC_SECRET e) signatureString;
          credentials =
            [(''username'', HMAC_CLIENT_ID e), (''algorithm'', ''hmac-sha256''),
             (''headers'', headers), (''signature'', signature)]
      in ''HMAC '' @ JSON_stringify credentials)"

section \<open>Syncing civic data (\<open>RegionDomainService\<close>)\<close>

datatype CivicDataType = PROPOSITIONS | MEETINGS | REPRESENTATIVES

record SyncResult =
  dataType :: CivicDataType
  itemsProcessed :: nat
  itemsCreated :: nat
  itemsUpdated :: nat
  errors :: "string list"
  syncedAt :: nat

text \<open>
  An item of the provider (a proposition, a meeting or a representative): its external id,
  and its other fields, which the sync copies into the entity unchanged.
\<close>

record 'a civic_item =
  externalId :: string
  other_fields :: 'a

text \<open>
  What a sync of one data type talks to. The provider's fetch resolves to the items or
  rejects with an error message. The repository's query for the records whose external id
  is among the given ones resolves to the external ids of the records found, or rejects;
  it reads the database. The bulk upsert may reject, and leaves the database in a new
  state either way.
\<close>

record ('a, 'db) sync_source =
  fetchItems :: "string + 'a civic_item list"
  getMany :: "'db \<Rightarrow> string list \<Rightarrow> string + string list"
  upsert :: "'db \<Rightarrow> 'a civic_item list \<Rightarrow> string option \<times> 'db"

record ('a, 'db) region_service =
  propositions :: "('a, 'db) sync_source"
  meetings :: "('a, 'db) sync_source"
  representatives :: "('a, 'db) sync_source"
  getSupportedDataTypes :: "CivicDataType list"

record sync_counts =
  processed :: nat
  created :: nat
  updated :: nat

text \<open>
  The body shared by \<open>syncPropositions\<close>, \<open>syncMeetings\<close> and \<open>syncRepresentatives\<close>, which
  differ in the provider method, the repository and the names of the copied fields only.
\<close>

definition bulk_sync :: "('a, 'db) sync_source \<Rightarrow> 'db \<Rightarrow> (string + sync_counts) \<times> 'db" where
  "bulk_sync src db =
     (case fetchItems src of
        Inl err \<Rightarrow> (Inl err, db)
      | Inr items \<Rightarrow>
          if length items = 0 then (Inr \<lparr>processed = 0, created = 0, updated = 0\<rparr>, db)
          else (let externalIds = map externalId items in
                case getMany src db externalIds of
                  Inl err \<Rightarrow> (Inl err, db)
                | Inr existingRecords \<Rightarrow>
                    (let existingExternalIds = set existingRecords;
                         entities = map (\<lambda>p. \<lparr>externalId = externalId p, other_fields = other_fields p\<rparr>) items
                     in case upsert src db entities of
                          (Some err, db') \<Rightarrow> (Inl err, db')
                        | (None, db') \<Rightarrow>
                            (Inr \<lparr>processed = length items,
                                  created = length (filter (\<lambda>p. externalId p \<notin> existingExternalIds) items),
                                  updated = length (filter (\<lambda>p. externalId p \<in> existingExternalIds) items)\<rparr>,
                             db'))))"

definition syncPropositions :: "('a, 'db) region_service \<Rightarrow> 'db \<Rightarrow> (string + sync_counts) \<times> 'db" where
  "syncPropositions svc db = bulk_sync (propositions svc) db"

definition syncMeetings :: "('a, 'db) region_service \<Rightarrow> 'db \<Rightarrow> (string + sync_counts) \<times> 'db" where
  "syncMeetings svc db = bulk_sync (meetings svc) db"

definition syncRepresentatives :: "('a, 'db) region_service \<Rightarrow> 'db \<Rightarrow> (string + sync_counts) \<times> 'db" where
  "syncRepresentatives svc db = bulk_sync (representatives svc) db"

text \<open>
  \<open>syncDataType\<close>: the handler is looked up by data type and awaited; a rejection passes
  through. \<open>now\<close> is what \<open>new Date()\<close> gives. Logging is left out.
\<close>

definition syncHandlers ::
  "('a, 'db) region_service \<Rightarrow> CivicDataType \<Rightarrow> 'db \<Rightarrow> (string + sync_counts) \<times> 'db" where
  "syncHandlers svc dt =
     (case dt of
        PROPOSITIONS \<Rightarrow> syncPropositions svc
      | MEETINGS \<Rightarrow> syncMeetings svc
      | REPRESENTATIVES \<Rightarrow> syncRepresentatives svc)"

definition syncDataType ::
  "('a, 'db) region_service \<Rightarrow> nat \<Rightarrow> CivicDataType \<Rightarrow> 'db \<Rightarrow> (string + SyncResult) \<times> 'db" where
  "syncDataType svc now dt db =
     (case syncHandlers svc dt db of
        (Inl err, db') \<Rightarrow> (Inl err, db')
      | (Inr counts, db') \<Rightarrow>
          (Inr \<lparr>dataType = dt, itemsProcessed = processed counts, itemsCreated = created counts,
                itemsUpdated = updated counts, errors = [], syncedAt = now\<rparr>,
           db'))"

text \<open>
  \<open>syncAll\<close>: every supported data type in order; a sync that throws contributes a result
  with zero counts and the error's message.
\<close>

fun syncAll_loop ::
  "('a, 'db) region_service \<Rightarrow> nat \<Rightarrow> CivicDataType list \<Rightarrow> 'db \<Rightarrow> SyncResult list \<times> 'db" where
  "syncAll_loop svc now [] db = ([], db)"
| "syncAll_loop svc now (dt # dts) db =
     (case syncDataType svc now dt db of
        (Inl err, db') \<Rightarrow>
          (case syncAll_loop svc now dts db' of
             (results, db'') \<Rightarrow>
               (\<lparr>dataType = dt, itemsProcessed = 0, itemsCreated = 0, itemsUpdated = 0,
                  errors = [err], syncedAt = now\<rparr> # results, db''))
      | (Inr result, db') \<Rightarrow>
          (case syncAll_loop svc now dts db' of
             (results, db'') \<Rightarrow> (result # results, db'')))"

definition syncAll :: "('a, 'db) region_service \<Rightarrow> nat \<Rightarrow> 'db \<Rightarrow> SyncResult list \<times> 'db" where
  "syncAll svc now db = syncAll_loop svc now (getSupportedDataTypes svc) db"

text \<open>
  A provider with two propositions and a repository that is a list of external ids; the
  upsert adds the ids that are new. The meetings fetch fails; there are no representatives.
\<close>

definition listRepo_getMany :: "string list \<Rightarrow> string list \<Rightarrow> string + string list" where
  "listRepo_getMany db ids = Inr (filter (\<lambda>i. i \<in> set ids) db)"

definition listRepo_upsert :: "string list \<Rightarrow> unit civic_item list \<Rightarrow> string option \<times> string list" where
  "listRepo_upsert db entities =
     (None, db @ filter (\<lambda>i. i \<notin> set db) (remdups (map externalId entities)))"

definition testRegion :: "(unit, string list) region_service" where
  "testRegion =
     \<lparr>propositions =
        \<lparr>fetchItems = Inr [\<lparr>externalId = ''prop-1'', other_fields = ()\<rparr>,
                            \<lparr>externalId = ''prop-2'', other_fields = ()\<rparr>],
         getMany = listRepo_getMany, upsert = listRepo_upsert\<rparr>,
      meetings =
        \<lparr>fetchItems = Inl ''Network error'', getMany = listRepo_getMany, upsert = listRepo_upsert\<rparr>,
      representatives =
        \<lparr>fetchItems = Inr [], getMany = listRepo_getMany, upsert = listRepo_upsert\<rparr>,
      getSupportedDataTypes = [PROPOSITIONS, MEETINGS, REPRESENTATIVES]\<rparr>"

text \<open>
  A stand-in for the runtime, used to run the header on concrete input: the hash shows its
  key and message, and strings that are not ASCII are left as they are.
\<close>

definition tagHmac :: "string \<Rightarrow> string \<Rightarrow> string" where
  "tagHmac key message = ''b64('' @ key @ ''|'' @ message @ '')''"

definition testRuntime :: js_runtime where
  "testRuntime = \<lparr>hmac_sha256_base64 = tagHmac, unicode_toLowerCase = (\<lambda>s. s)\<rparr>"

section \<open>Properties of the data source\<close>

lemma header_keys:
  "header_key ''user'' = ''user''"
  "header_key ''X-HMAC-Auth'' = ''x-hmac-auth''"
  by code_simp+

lemma header_keys_differ: "header_key ''X-HMAC-Auth'' \<noteq> header_key ''user''"
  unfolding header_keys by simp

lemma headers_set_thrown:
  "fst (headers_set impl request name v) =
     (if http request \<noteq> None \<and> \<not> valid_value impl (normalize_value impl v)
      then Some TypeError else None)"
  by (simp add: headers_set_def Let_def split: option.splits)

lemma headers_set_unchanged:
  "fst (headers_set impl request name v) \<noteq> None \<Longrightarrow> snd (headers_set impl request name v) = request"
  by (simp add: headers_set_def Let_def split: option.splits if_splits)

lemma header_of_headers_set:
  "header_of (snd (headers_set impl request name v)) name' =
     (if http request \<noteq> None \<and> valid_value impl (normalize_value impl v)
         \<and> header_key name' = header_key name
      then Some (normalize_value impl v) else header_of request name')"
  by (simp add: header_of_def headers_set_def Let_def split: option.splits)

lemma request_url_headers_set:
  "request_url (snd (headers_set impl request name v)) = request_url request"
  by (simp add: request_url_def headers_set_def Let_def split: option.splits)

lemma header_of_forward_user_other:
  "header_key name \<noteq> header_key ''user'' \<Longrightarrow>
     header_of (snd (forward_user impl request context)) name = header_of request name"
  by (simp add: forward_user_def header_of_headers_set split: option.splits)

lemma request_url_forward_user:
  "request_url (snd (forward_user impl request context)) = request_url request"
  by (simp add: forward_user_def request_url_headers_set split: option.splits)

lemma header_of_sign_request_other:
  "header_key name \<noteq> header_key ''X-HMAC-Auth'' \<Longrightarrow>
     header_of (snd (sign_request impl s request)) name = header_of request name"
  by (simp add: sign_request_def header_of_headers_set split: option.splits)

lemma header_of_forward_user:
  "header_of (snd (forward_user impl request context)) ''user'' =
     (case context_user context of
        None \<Rightarrow> header_of request ''user''
      | Some u \<Rightarrow>
          if u \<noteq> [] \<and> http request \<noteq> None \<and> valid_value impl (normalize_value impl u)
          then Some (normalize_value impl u) else header_of request ''user'')"
  by (simp add: forward_user_def header_of_headers_set split: option.splits)

lemma forward_user_thrown:
  "fst (forward_user impl request context) =
     (case context_user context of
        None \<Rightarrow> None
      | Some u \<Rightarrow>
          if u \<noteq> [] \<and> http request \<noteq> None \<and> \<not> valid_value impl (normalize_value impl u)
          then Some TypeError else None)"
  by (simp add: forward_user_def headers_set_thrown split: option.splits)

lemma forward_user_unchanged:
  "fst (forward_user impl request context) \<noteq> None \<Longrightarrow>
     snd (forward_user impl request context) = request"
  by (auto simp: forward_user_def headers_set_unchanged split: option.splits if_splits)

lemma willSendRequest_cases:
  "willSendRequest impl hmacSigner request context =
     (if fst (forward_user impl request context) \<noteq> None
      then forward_user impl request context
      else sign_request impl hmacSigner (snd (forward_user impl request context)))"
  by (cases "forward_user impl request context")
     (auto simp: willSendRequest_def split: option.splits)

lemma header_of_willSendRequest_user:
  "header_of (snd (willSendRequest impl hmacSigner request context)) ''user'' =
     header_of (snd (forward_user impl request context)) ''user''"
  using header_keys_differ
  by (simp add: willSendRequest_cases header_of_sign_request_other)

text \<open>
  C3. When the signer reports itself disabled, \<open>willSendRequest\<close> leaves the
  \<open>X-HMAC-Auth\<close> header of the request as it was, for every request, context, signing
  function and \<open>Headers\<close> class: a request that carried no such header carries none
  afterwards.
\<close>

theorem disabled_signer_sets_no_hmac_header:
  "\<not> isEnabled hmacSigner \<Longrightarrow>
     header_of (snd (willSendRequest impl hmacSigner request context)) ''X-HMAC-Auth''
       = header_of request ''X-HMAC-Auth''"
  using header_keys_differ
  by (simp add: willSendRequest_cases sign_request_def header_of_forward_user_other)

theorem disabled_signer_sets_no_hmac_header_witness:
  "\<not> isEnabled disabledSigner \<and>
   header_of (snd (willSendRequest strictHeaders disabledSigner usersRequest u1Context))
     ''X-HMAC-Auth'' = None"
proof -
  have a: "\<not> isEnabled disabledSigner" by (simp add: disabledSigner_def)
  have b: "header_of usersRequest ''X-HMAC-Auth'' = None"
    by (simp add: header_of_def usersRequest_def)
  from disabled_signer_sets_no_hmac_header [OF a, of strictHeaders usersRequest u1Context] a b
  show ?thesis by simp
qed

text \<open>
  C8, as stated, fails in two ways. For a request that has no http part, the context
  carries the user \<open>u-1\<close> and no \<open>user\<close> header is on the request after \<open>willSendRequest\<close>.
  For a user with a line feed in it and a \<open>Headers\<close> class that rejects control characters,
  \<open>willSendRequest\<close> throws a \<open>TypeError\<close> and no \<open>user\<close> header is set.
\<close>

theorem user_header_counterexample:
  "context_user u1Context = Some ''u-1'' \<and>
   header_of (snd (willSendRequest strictHeaders enabledSigner bareRequest u1Context)) ''user''
     \<noteq> Some ''u-1'' \<and>
   context_user brokenUserContext = Some (''u'' @ [CHR 0x0A] @ ''1'') \<and>
   fst (willSendRequest strictHeaders enabledSigner usersRequest brokenUserContext) = Some TypeError \<and>
   header_of (snd (willSendRequest strictHeaders enabledSigner usersRequest brokenUserContext)) ''user''
     = None"
  by code_simp

text \<open>
  C8, amended. When the context carries a non-empty user and the request has an http
  part, then either the \<open>Headers\<close> object accepts the user as a value, and after
  \<open>willSendRequest\<close> the \<open>user\<close> header is that user as the \<open>Headers\<close> object stores it (exactly
  the user when it needs no normalising), whether or not signing fails afterwards; or it
  rejects the value, and \<open>willSendRequest\<close> throws a \<open>TypeError\<close> and leaves the request as it
  was, unsigned. When the context carries no user or an empty one, or the request has no
  http part, the \<open>user\<close> header is what it was before the call (none, if the request had
  none).
\<close>

theorem user_header_forwarded:
  "(\<forall>u. context_user context = Some u \<and> u \<noteq> [] \<and> http request \<noteq> None \<longrightarrow>
       (valid_value impl (normalize_value impl u) \<longrightarrow>
          header_of (snd (willSendRequest impl hmacSigner request context)) ''user''
            = Some (normalize_value impl u))
     \<and> (valid_value impl u \<and> normalize_value impl u = u \<longrightarrow>
          header_of (snd (willSendRequest impl hmacSigner request context)) ''user'' = Some u)
     \<and> (\<not> valid_value impl (normalize_value impl u) \<longrightarrow>
          willSendRequest impl hmacSigner request context = (Some TypeError, request)))
   \<and> (\<not> truthy (context_user context) \<or> http request = None \<longrightarrow>
        header_of (snd (willSendRequest impl hmacSigner request context)) ''user''
          = header_of request ''user'')"
proof -
  have set: "header_of (snd (willSendRequest impl hmacSigner request context)) ''user''
               = Some (normalize_value impl u)"
    if "context_user context = Some u" "u \<noteq> []" "http request \<noteq> None"
      "valid_value impl (normalize_value impl u)" for u
    using that by (simp add: header_of_willSendRequest_user header_of_forward_user)
  have thrown: "willSendRequest impl hmacSigner request context = (Some TypeError, request)"
    if "context_user context = Some u" "u \<noteq> []" "http request \<noteq> None"
      "\<not> valid_value impl (normalize_value impl u)" for u
  proof -
    from that have f: "fst (forward_user impl request context) = Some TypeError"
      by (simp add: forward_user_thrown)
    then have "snd (forward_user impl request context) = request"
      by (simp add: forward_user_unchanged)
    with f have "forward_user impl request context = (Some TypeError, request)"
      by (metis prod.collapse)
    with f show ?thesis by (simp add: willSendRequest_cases)
  qed
  have kept: "header_of (snd (willSendRequest impl hmacSigner request context)) ''user''
          = header_of request ''user''"
    if "\<not> truthy (context_user context) \<or> http request = None"
    using that
    by (auto simp: header_of_willSendRequest_user header_of_forward_user truthy_def
        split: option.splits)
  from set thrown kept show ?thesis by metis
qed

theorem user_header_forwarded_witness:
  "header_of (snd (willSendRequest strictHeaders enabledSigner usersRequest u1Context)) ''user''
     = Some ''u-1'' \<and>
   fst (willSendRequest strictHeaders enabledSigner usersRequest brokenUserContext) = Some TypeError \<and>
   header_of (snd (willSendRequest strictHeaders enabledSigner usersRequest None)) ''user'' = None"
proof -
  have c: "context_user u1Context = Some ''u-1''" by (simp add: context_user_def u1Context_def)
  have h: "http usersRequest \<noteq> None" by (simp add: usersRequest_def)
  have v: "valid_value strictHeaders ''u-1''" by code_simp
  have n: "normalize_value strictHeaders ''u-1'' = ''u-1''" by (simp add: strictHeaders_def)
  have cb: "context_user brokenUserContext = Some (''u'' @ [CHR 0x0A] @ ''1'')"
    by (simp add: context_user_def brokenUserContext_def)
  have vb: "\<not> valid_value strictHeaders (normalize_value strictHeaders (''u'' @ [CHR 0x0A] @ ''1''))"
    by code_simp
  have t: "\<not> truthy (context_user None)" by (simp add: truthy_def context_user_def)
  have z: "header_of usersRequest ''user'' = None" by (simp add: header_of_def usersRequest_def)
  have 1: "header_of (snd (willSendRequest strictHeaders enabledSigner usersRequest u1Context)) ''user''
     = Some ''u-1''"
    using user_header_forwarded [of u1Context usersRequest strictHeaders enabledSigner] c h v n
    by auto
  have 2: "willSendRequest strictHeaders enabledSigner usersRequest brokenUserContext
             = (Some TypeError, usersRequest)"
    using user_header_forwarded [of brokenUserContext usersRequest strictHeaders enabledSigner] cb h vb
    by auto
  have 3: "header_of (snd (willSendRequest strictHeaders enabledSigner usersRequest None)) ''user'' = None"
    using user_header_forwarded [of None usersRequest strictHeaders enabledSigner] t z
    by auto
  from 1 2 3 show ?thesis by simp
qed

text \<open>
  C10. Whatever the signer reports, \<open>willSendRequest\<close> leaves the \<open>X-HMAC-Auth\<close> header as
  it was when the request has no http part, when its URL is empty, or when the signer
  returns no credential or an empty one for the URL.
\<close>

theorem no_url_or_credential_sets_no_hmac_header:
  assumes "http request = None
           \<or> request_url request = Some []
           \<or> (\<exists>url. request_url request = Some url \<and> \<not> truthy (signGraphQLRequest hmacSigner url))"
  shows "header_of (snd (willSendRequest impl hmacSigner request context)) ''X-HMAC-Auth''
           = header_of request ''X-HMAC-Auth''"
proof -
  let ?r = "snd (forward_user impl request context)"
  have url: "request_url ?r = request_url request"
    by (rule request_url_forward_user)
  have "sign_request impl hmacSigner ?r = (None, ?r)"
  proof (cases "request_url request")
    case None
    then show ?thesis by (simp add: sign_request_def url)
  next
    case (Some u)
    with assms have "u = [] \<or> \<not> truthy (signGraphQLRequest hmacSigner u)"
      by (auto simp: request_url_def)
    with Some show ?thesis
      by (auto simp: sign_request_def url truthy_def split: option.splits)
  qed
  then have "snd (willSendRequest impl hmacSigner request context) = ?r"
    by (simp add: willSendRequest_cases)
  then show ?thesis
    using header_keys_differ by (simp add: header_of_forward_user_other)
qed

theorem no_url_or_credential_sets_no_hmac_header_witness:
  "isEnabled enabledSigner \<and> http bareRequest = None \<and>
   header_of (snd (willSendRequest strictHeaders enabledSigner bareRequest None)) ''X-HMAC-Auth'' = None \<and>
   request_url emptyUrlRequest = Some [] \<and>
   header_of (snd (willSendRequest strictHeaders enabledSigner emptyUrlRequest None)) ''X-HMAC-Auth'' = None \<and>
   isEnabled silentSigner \<and>
   request_url usersRequest = Some ''http://localhost:3001/graphql'' \<and>
   \<not> truthy (signGraphQLRequest silentSigner ''http://localhost:3001/graphql'') \<and>
   header_of (snd (willSendRequest strictHeaders silentSigner usersRequest None)) ''X-HMAC-Auth'' = None"
proof -
  have a: "http bareRequest = None" by (simp add: bareRequest_def)
  have b: "request_url emptyUrlRequest = Some []" by (simp add: request_url_def emptyUrlRequest_def)
  have c: "request_url usersRequest = Some ''http://localhost:3001/graphql''"
    by (simp add: request_url_def usersRequest_def)
  have d: "\<not> truthy (signGraphQLRequest silentSigner ''http://localhost:3001/graphql'')"
    by (simp add: truthy_def silentSigner_def)
  have e: "header_of bareRequest ''X-HMAC-Auth'' = None" by (simp add: header_of_def bareRequest_def)
  have f: "header_of emptyUrlRequest ''X-HMAC-Auth'' = None" by (simp add: header_of_def emptyUrlRequest_def)
  have g: "header_of usersRequest ''X-HMAC-Auth'' = None" by (simp add: header_of_def usersRequest_def)
  have h: "isEnabled enabledSigner" "isEnabled silentSigner" by (simp_all add: enabledSigner_def silentSigner_def)
  from c d have cd: "\<exists>url. request_url usersRequest = Some url \<and> \<not> truthy (signGraphQLRequest silentSigner url)"
    by blast
  show ?thesis
    using no_url_or_credential_sets_no_hmac_header [of bareRequest enabledSigner strictHeaders None, OF disjI1, OF a]
          no_url_or_credential_sets_no_hmac_header [of emptyUrlRequest enabledSigner strictHeaders None, OF disjI2, OF disjI1, OF b]
          no_url_or_credential_sets_no_hmac_header [of usersRequest silentSigner strictHeaders None, OF disjI2, OF disjI2, OF cd]
          a b c d e f g h
    by simp
qed

section \<open>The cookie pattern\<close>

lemma str_includes_sublist: "str_includes s sub \<longleftrightarrow> sublist sub s"
  by (induction s) (simp_all add: sublist_Cons_right)

lemma match_here_general:
  "match_here s = Some v \<longleftrightarrow>
     (\<exists>rest. s = ''csrf-token='' @ v @ rest \<and> v \<noteq> [] \<and> CHR '';'' \<notin> set v
             \<and> (rest = [] \<or> hd rest = CHR '';''))"
proof -
  define lit where "lit = ''csrf-token=''"
  have mh: "match_here s =
     (if prefix lit s
      then (let v = takeWhile (\<lambda>c. c \<noteq> CHR '';'') (drop (length lit) s)
            in if v \<noteq> [] then Some v else None)
      else None)"
    unfolding match_here_def lit_def ..
  have "match_here s = Some v \<longleftrightarrow>
     (\<exists>rest. s = lit @ v @ rest \<and> v \<noteq> [] \<and> CHR '';'' \<notin> set v
             \<and> (rest = [] \<or> hd rest = CHR '';''))" (is "?L \<longleftrightarrow> ?R")
  proof
    assume ?L
    then obtain zs where s: "s = lit @ zs" and v: "v = takeWhile (\<lambda>c. c \<noteq> CHR '';'') zs" "v \<noteq> []"
      unfolding mh by (auto simp: prefix_def Let_def split: if_splits)
    let ?rest = "dropWhile (\<lambda>c. c \<noteq> CHR '';'') zs"
    have "zs = v @ ?rest" using v by simp
    moreover have "CHR '';'' \<notin> set v" using v(1) by (auto dest: set_takeWhileD)
    moreover have "?rest = [] \<or> hd ?rest = CHR '';''"
      using hd_dropWhile [of "\<lambda>c. c \<noteq> CHR '';''" zs] by auto
    ultimately show ?R using s v(2) by blast
  next
    assume ?R
    then obtain rest where s: "s = lit @ v @ rest" and v: "v \<noteq> []" "CHR '';'' \<notin> set v"
      and r: "rest = [] \<or> hd rest = CHR '';''" by blast
    have "takeWhile (\<lambda>c. c \<noteq> CHR '';'') (v @ rest) = v"
    proof (cases rest)
      case Nil
      then show ?thesis using v(2) by (auto simp: takeWhile_eq_all_conv)
    next
      case (Cons a as)
      with r have "a = CHR '';''" by simp
      with Cons show ?thesis using v(2) by (auto simp: takeWhile_append)
    qed
    then show ?L unfolding mh using s v(1) by (simp add: Let_def)
  qed
  then show ?thesis unfolding lit_def .
qed



lemma csrf_token_exec_Some:
  assumes "csrf_token_exec s = Some v"
  shows "v \<noteq> [] \<and> CHR '';'' \<notin> set v \<and>
         (\<exists>pre rest. s = pre @ ''csrf-token='' @ v @ rest \<and> (rest = [] \<or> hd rest = CHR '';''))"
proof -
  define lit where "lit = ''csrf-token=''"
  have mh: "match_here s = Some v \<Longrightarrow>
     (\<exists>rest. s = lit @ v @ rest \<and> v \<noteq> [] \<and> CHR '';'' \<notin> set v
             \<and> (rest = [] \<or> hd rest = CHR '';''))" for s
    unfolding lit_def by (simp add: match_here_general)
  from assms have "v \<noteq> [] \<and> CHR '';'' \<notin> set v \<and>
         (\<exists>pre rest. s = pre @ lit @ v @ rest \<and> (rest = [] \<or> hd rest = CHR '';''))"
  proof (induction s)
    case Nil
    then show ?case by simp
  next
    case (Cons a s)
    show ?case
    proof (cases "match_here (a # s)")
      case None
      with Cons.prems have "csrf_token_exec s = Some v" by simp
      from Cons.IH [OF this] obtain pre rest where
        v: "v \<noteq> []" "CHR '';'' \<notin> set v" and s: "s = pre @ lit @ v @ rest" "rest = [] \<or> hd rest = CHR '';''"
        by blast
      from s have "a # s = (a # pre) @ lit @ v @ rest" by simp
      with v s(2) show ?thesis by blast
    next
      case (Some u)
      with Cons.prems have "u = v" by simp
      with Some mh [of "a # s"] obtain rest where
        "a # s = [] @ lit @ v @ rest" "v \<noteq> []" "CHR '';'' \<notin> set v" "rest = [] \<or> hd rest = CHR '';''"
        by auto
      then show ?thesis by blast
    qed
  qed
  then show ?thesis unfolding lit_def .
qed

section \<open>Steps of the CSRF token cache\<close>

lemma fetch_world:
  assumes "fetch serve rq w = (res, w')"
  shows "sent w' = sent w @ [rq]" "csrfToken w' = csrfToken w" "csrfCookie w' = csrfCookie w"
  using assms by (auto simp: fetch_def split: prod.splits)

lemma fetch_serve:
  "fetch serve rq w = (res, w') \<Longrightarrow> serve (gateway_state w) rq = (res, gateway_state w')"
  by (auto simp: fetch_def split: prod.splits)

lemma cached_pair_fetch: "fetch serve rq w = (res, w') \<Longrightarrow> cached_pair w' = cached_pair w"
  by (simp add: cached_pair_def fetch_world cong: option.case_cong)

lemma fetchCsrfToken_world:
  assumes "fetchCsrfToken e serve w = (res, w')"
  shows "sent w' = sent w @ [csrf_bootstrap_request e]"
    "csrfToken w' = csrfToken w" "csrfCookie w' = csrfCookie w"
proof -
  obtain fr w1 where f: "fetch serve (csrf_bootstrap_request e) w = (fr, w1)"
    by (cases "fetch serve (csrf_bootstrap_request e) w")
  with assms have "w' = w1"
    by (auto simp: fetchCsrfToken_def split: fetch_result.splits option.splits if_splits)
  with fetch_world [OF f]
  show "sent w' = sent w @ [csrf_bootstrap_request e]"
    "csrfToken w' = csrfToken w" "csrfCookie w' = csrfCookie w"
    by simp_all
qed

lemma fetchCsrfToken_pair:
  assumes "fetchCsrfToken e serve w = (Inr p, w')"
  shows "token p \<noteq> []" "cookie p = ''csrf-token='' @ token p"
proof -
  obtain fr w1 where f: "fetch serve (csrf_bootstrap_request e) w = (fr, w1)"
    by (cases "fetch serve (csrf_bootstrap_request e) w")
  with assms obtain h t where "csrf_token_exec h = Some t" "p = \<lparr>token = t, cookie = ''csrf-token='' @ t\<rparr>"
    by (auto simp: fetchCsrfToken_def split: fetch_result.splits option.splits if_splits)
  with csrf_token_exec_Some [of h t]
  show "token p \<noteq> []" "cookie p = ''csrf-token='' @ token p" by simp_all
qed

lemma getCsrfToken_hit: "cached_pair w = Some p \<Longrightarrow> getCsrfToken e serve w = (Inr p, w)"
  by (simp add: getCsrfToken_def)

lemma getCsrfToken_miss:
  "cached_pair w = None \<Longrightarrow>
   getCsrfToken e serve w =
     (case fetchCsrfToken e serve w of
        (Inl err, w') \<Rightarrow> (Inl err, w')
      | (Inr result, w') \<Rightarrow>
          (Inr result, w'\<lparr>csrfToken := Some (token result), csrfCookie := Some (cookie result)\<rparr>))"
  by (simp add: getCsrfToken_def)

lemma fetchCsrfToken_split:
  "fetchCsrfToken e serve w =
     (case fetch serve (csrf_bootstrap_request e) w of (res, w') \<Rightarrow> (csrf_pair_of res, w'))"
  by (cases "fetch serve (csrf_bootstrap_request e) w")
     (simp add: fetchCsrfToken_def csrf_pair_of_def split: fetch_result.splits option.splits)

lemma getCsrfToken_split:
  "getCsrfToken e serve w =
     (case getCsrfToken_begin e serve w of (pending, w') \<Rightarrow> getCsrfToken_resume pending w')"
proof (cases "cached_pair w")
  case (Some p)
  then show ?thesis
    by (simp add: getCsrfToken_def getCsrfToken_begin_def getCsrfToken_resume_def)
next
  case None
  obtain res w1 where f: "fetch serve (csrf_bootstrap_request e) w = (res, w1)"
    by (cases "fetch serve (csrf_bootstrap_request e) w")
  with None show ?thesis
    by (cases "csrf_pair_of res")
       (simp_all add: getCsrfToken_def getCsrfToken_begin_def getCsrfToken_resume_def
          fetchCsrfToken_split)
qed

lemma getCsrfToken_caches:
  assumes "getCsrfToken e serve w = (Inr p, w')"
  shows "cached_pair w' = Some p"
proof (cases "cached_pair w")
  case (Some c)
  with assms show ?thesis by (simp add: getCsrfToken_def)
next
  case None
  obtain res w1 where f: "fetchCsrfToken e serve w = (res, w1)"
    by (cases "fetchCsrfToken e serve w")
  with assms None have res: "res = Inr p"
    and w': "w' = w1\<lparr>csrfToken := Some (token p), csrfCookie := Some (cookie p)\<rparr>"
    by (auto simp: getCsrfToken_miss split: sum.splits)
  from fetchCsrfToken_pair [OF f [unfolded res]] show ?thesis
    by (simp add: w' cached_pair_def)
qed

lemma getCsrfToken_sent:
  assumes "getCsrfToken e serve w = (res, w')"
  shows "sent w' = sent w @ (if cached_pair w = None then [csrf_bootstrap_request e] else [])"
proof (cases "cached_pair w")
  case (Some c)
  with assms show ?thesis by (simp add: getCsrfToken_def)
next
  case None
  obtain r w1 where f: "fetchCsrfToken e serve w = (r, w1)"
    by (cases "fetchCsrfToken e serve w")
  with assms None have "sent w' = sent w1"
    by (auto simp: getCsrfToken_miss split: sum.splits)
  with fetchCsrfToken_world(1) [OF f] None show ?thesis by simp
qed

lemma cached_pair_clear: "cached_pair (clearCsrfToken w) = None"
  by (simp add: cached_pair_def clearCsrfToken_def)

lemma sent_clear: "sent (clearCsrfToken w) = sent w"
  by (simp add: clearCsrfToken_def)

lemma post_request_method: "fetch_method (post_request e csrf q vars hdrs) = ''POST''"
  by (simp add: post_request_def)

lemma bootstrap_method: "fetch_method (csrf_bootstrap_request e) = ''GET''"
  by (simp add: csrf_bootstrap_request_def)

lemma post_request_url: "fetch_url (post_request e csrf q vars hdrs) = API_GATEWAY_URL e @ API_GATEWAY_PATH"
  by (simp add: post_request_def)

lemma bootstrap_url: "fetch_url (csrf_bootstrap_request e) = API_GATEWAY_URL e @ API_GATEWAY_PATH"
  by (simp add: csrf_bootstrap_request_def)

section \<open>Steps of \<open>graphqlRequest\<close>\<close>

lemma log_grows_refl: "log_grows e 0 0 w w"
  by (simp add: log_grows_def)

lemma log_grows_trans:
  assumes "log_grows e k1 j1 w w1" "log_grows e k2 j2 w1 w2"
  shows "log_grows e (k1 + k2) (j1 + j2) w w2"
proof -
  from assms(1) obtain n1 where 1: "sent w1 = sent w @ n1" "length n1 \<le> k1"
    "length (filter (\<lambda>rq. fetch_method rq = ''POST'') n1) \<le> j1"
    "list_all (\<lambda>rq. fetch_url rq = API_GATEWAY_URL e @ API_GATEWAY_PATH) n1"
    unfolding log_grows_def by blast
  from assms(2) obtain n2 where 2: "sent w2 = sent w1 @ n2" "length n2 \<le> k2"
    "length (filter (\<lambda>rq. fetch_method rq = ''POST'') n2) \<le> j2"
    "list_all (\<lambda>rq. fetch_url rq = API_GATEWAY_URL e @ API_GATEWAY_PATH) n2"
    unfolding log_grows_def by blast
  have "sent w2 = sent w @ (n1 @ n2)" using 1(1) 2(1) by simp
  moreover have "length (n1 @ n2) \<le> k1 + k2" using 1(2) 2(2) by simp
  moreover have "length (filter (\<lambda>rq. fetch_method rq = ''POST'') (n1 @ n2)) \<le> j1 + j2"
    using 1(3) 2(3) by simp
  moreover have "list_all (\<lambda>rq. fetch_url rq = API_GATEWAY_URL e @ API_GATEWAY_PATH) (n1 @ n2)"
    using 1(4) 2(4) by simp
  ultimately show ?thesis unfolding log_grows_def by blast
qed

lemma log_grows_mono: "log_grows e k j w w' \<Longrightarrow> k \<le> k' \<Longrightarrow> j \<le> j' \<Longrightarrow> log_grows e k' j' w w'"
  unfolding log_grows_def by (meson le_trans)

lemma log_grows_step:
  "log_grows e k1 j1 w w1 \<Longrightarrow> log_grows e k2 j2 w1 w2 \<Longrightarrow> k1 + k2 \<le> k \<Longrightarrow> j1 + j2 \<le> j
     \<Longrightarrow> log_grows e k j w w2"
  by (blast intro: log_grows_mono log_grows_trans)

lemma log_grows_same_sent: "sent w' = sent w \<Longrightarrow> log_grows e 0 0 w w'"
  by (simp add: log_grows_def)

lemma log_grows_post:
  assumes "fetch serve (post_request e csrf q vars hdrs) w = (res, w')"
  shows "log_grows e 1 1 w w'"
  unfolding log_grows_def
  using fetch_world(1) [OF assms] by (simp add: post_request_url)

lemma log_grows_getCsrfToken:
  assumes "getCsrfToken e serve w = (res, w')"
  shows "log_grows e 1 0 w w'"
  unfolding log_grows_def
  using getCsrfToken_sent [OF assms] by (simp add: bootstrap_url bootstrap_method)

lemma log_grows_posts:
  "log_grows e k j w w' \<Longrightarrow> posts_sent w' \<le> posts_sent w + j"
  unfolding log_grows_def posts_sent_def by auto

lemma log_grows_length:
  "log_grows e k j w w' \<Longrightarrow> length (sent w') \<le> length (sent w) + k"
  unfolding log_grows_def by auto

lemma posts_sent_post:
  assumes "fetch serve (post_request e csrf q vars hdrs) w = (res, w')"
  shows "posts_sent w' = posts_sent w + 1"
  using fetch_world(1) [OF assms] by (simp add: posts_sent_def post_request_method)

lemma posts_sent_getCsrfToken:
  assumes "getCsrfToken e serve w = (res, w')"
  shows "posts_sent w' = posts_sent w"
  using getCsrfToken_sent [OF assms] by (simp add: posts_sent_def bootstrap_method)

lemma posts_sent_clear: "posts_sent (clearCsrfToken w) = posts_sent w"
  by (simp add: posts_sent_def sent_clear)

lemma graphqlRequest_first_response:
  assumes "getCsrfToken e serve w = (Inr csrf, w1)"
    and "fetch serve (post_request e csrf q vars hdrs) w1 = (Responded r, w2)"
  shows "graphqlRequest e serve q vars hdrs w = handle_response e serve q vars hdrs r w2"
  by (simp add: graphqlRequest_def assms)

lemma handle_response_retry:
  assumes "status r = 403" "body r = Some b" "message_includes_CSRF b = Inr True"
  shows "handle_response e serve q vars hdrs r w = retry_once e serve q vars hdrs w"
  by (simp add: handle_response_def response_json_def assms)

lemma handle_response_final:
  assumes "\<not> (status r = 403 \<and> (\<exists>b. body r = Some b \<and> message_includes_CSRF b = Inr True))"
  shows "snd (handle_response e serve q vars hdrs r w) = w"
  using assms
  by (auto simp: handle_response_def response_json_def split: option.splits sum.splits)

lemma handle_response_error_body:
  assumes "status r = 403" "body r = Some b" "message_includes_CSRF b = Inr False"
  shows "handle_response e serve q vars hdrs r w = (Inr b, w)"
  by (simp add: handle_response_def response_json_def assms)

lemma retry_once_second_response:
  assumes "getCsrfToken e serve (clearCsrfToken w) = (Inr newCsrf, w1)"
    and "fetch serve (post_request e newCsrf q vars hdrs) w1 = (Responded r, w2)"
  shows "retry_once e serve q vars hdrs w = (response_json r, w2)"
  by (simp add: retry_once_def assms)

lemma retry_once_fetches:
  "\<exists>rest. sent (snd (retry_once e serve q vars hdrs w)) = sent w @ csrf_bootstrap_request e # rest"
proof -
  obtain res w1 where g: "getCsrfToken e serve (clearCsrfToken w) = (res, w1)"
    by (cases "getCsrfToken e serve (clearCsrfToken w)")
  from getCsrfToken_sent [OF g] have s1: "sent w1 = sent w @ [csrf_bootstrap_request e]"
    by (simp add: cached_pair_clear sent_clear)
  show ?thesis
  proof (cases res)
    case (Inl err)
    with g s1 show ?thesis by (simp add: retry_once_def)
  next
    case (Inr newCsrf)
    obtain fr w2 where f: "fetch serve (post_request e newCsrf q vars hdrs) w1 = (fr, w2)"
      by (cases "fetch serve (post_request e newCsrf q vars hdrs) w1")
    from fetch_world(1) [OF f] s1 have "sent w2 = sent w @ csrf_bootstrap_request e # [post_request e newCsrf q vars hdrs]"
      by simp
    moreover from g Inr f have "snd (retry_once e serve q vars hdrs w) = w2"
      by (cases fr) (simp_all add: retry_once_def)
    ultimately show ?thesis by blast
  qed
qed

lemma log_grows_retry_once: "log_grows e 2 1 w (snd (retry_once e serve q vars hdrs w))"
proof -
  obtain res w1 where g: "getCsrfToken e serve (clearCsrfToken w) = (res, w1)"
    by (cases "getCsrfToken e serve (clearCsrfToken w)")
  have c: "log_grows e 0 0 w (clearCsrfToken w)"
    by (rule log_grows_same_sent) (rule sent_clear)
  have 1: "log_grows e 1 0 w w1"
    by (rule log_grows_step [OF c log_grows_getCsrfToken [OF g]]) simp_all
  show ?thesis
  proof (cases res)
    case (Inl err)
    with g have "snd (retry_once e serve q vars hdrs w) = w1" by (simp add: retry_once_def)
    then show ?thesis using log_grows_mono [OF 1, of 2 1] by simp
  next
    case (Inr newCsrf)
    obtain fr w2 where f: "fetch serve (post_request e newCsrf q vars hdrs) w1 = (fr, w2)"
      by (cases "fetch serve (post_request e newCsrf q vars hdrs) w1")
    from g Inr f have "snd (retry_once e serve q vars hdrs w) = w2"
      by (cases fr) (simp_all add: retry_once_def)
    moreover have "log_grows e 2 1 w w2"
      by (rule log_grows_step [OF 1 log_grows_post [OF f]]) simp_all
    ultimately show ?thesis by simp
  qed
qed

lemma log_grows_handle_response: "log_grows e 2 1 w (snd (handle_response e serve q vars hdrs r w))"
proof (cases "status r = 403 \<and> (\<exists>b. body r = Some b \<and> message_includes_CSRF b = Inr True)")
  case True
  then obtain b where "status r = 403" "body r = Some b" "message_includes_CSRF b = Inr True" by blast
  from handle_response_retry [OF this]
  have "handle_response e serve q vars hdrs r w = retry_once e serve q vars hdrs w" .
  then show ?thesis using log_grows_retry_once [of e w serve q vars hdrs] by simp
next
  case False
  from handle_response_final [OF this] have "snd (handle_response e serve q vars hdrs r w) = w" .
  then show ?thesis using log_grows_mono [OF log_grows_refl, of 2 1 e w] by simp
qed

lemma log_grows_graphqlRequest: "log_grows e 4 2 w (snd (graphqlRequest e serve q vars hdrs w))"
proof -
  obtain res w1 where g: "getCsrfToken e serve w = (res, w1)"
    by (cases "getCsrfToken e serve w")
  note 1 = log_grows_getCsrfToken [OF g]
  show ?thesis
  proof (cases res)
    case (Inl err)
    with g have "snd (graphqlRequest e serve q vars hdrs w) = w1" by (simp add: graphqlRequest_def)
    then show ?thesis using log_grows_mono [OF 1, of 4 2] by simp
  next
    case (Inr csrf)
    obtain fr w2 where f: "fetch serve (post_request e csrf q vars hdrs) w1 = (fr, w2)"
      by (cases "fetch serve (post_request e csrf q vars hdrs) w1")
    have 2: "log_grows e 2 1 w w2"
      by (rule log_grows_step [OF 1 log_grows_post [OF f]]) simp_all
    show ?thesis
    proof (cases fr)
      case Rejected
      with g Inr f have "snd (graphqlRequest e serve q vars hdrs w) = w2" by (simp add: graphqlRequest_def)
      then show ?thesis using log_grows_mono [OF 2, of 4 2] by simp
    next
      case (Responded r)
      with g Inr f have "graphqlRequest e serve q vars hdrs w = handle_response e serve q vars hdrs r w2"
        by (simp add: graphqlRequest_first_response)
      moreover have "log_grows e 4 2 w (snd (handle_response e serve q vars hdrs r w2))"
        by (rule log_grows_step [OF 2 log_grows_handle_response]) simp_all
      ultimately show ?thesis by simp
    qed
  qed
qed

section \<open>The CSRF token manager\<close>







section \<open>The gateway request pipeline\<close>

lemma message_includes_CSRF_string:
  "map_of props ''message'' = Some (JStr m) \<Longrightarrow>
     message_includes_CSRF (JObj props) = Inr (sublist ''CSRF'' m)"
  by (simp add: message_includes_CSRF_def str_includes_sublist)

lemma message_includes_CSRF_absent:
  "map_of props ''message'' = None \<or> map_of props ''message'' = Some JNull \<Longrightarrow>
     message_includes_CSRF (JObj props) = Inr False"
  by (auto simp: message_includes_CSRF_def)

lemma first_post_world:
  assumes "getCsrfToken e serve w = (Inr csrf, w1)"
    and "fetch serve (post_request e csrf q vars hdrs) w1 = (res, w2)"
  shows "sent w2 = sent w @ (if cached_pair w = None then [csrf_bootstrap_request e] else [])
                     @ [post_request e csrf q vars hdrs]"
    and "posts_sent w2 = posts_sent w + 1"
  using getCsrfToken_sent [OF assms(1)] fetch_world(1) [OF assms(2)]
    posts_sent_getCsrfToken [OF assms(1)] posts_sent_post [OF assms(2)]
  by simp_all

text \<open>
  C1, amended. The first acquisition of a CSRF pair succeeds; the gateway answers the
  first POST with a 403 whose body's message includes \<open>CSRF\<close>; the bootstrap after the cache
  was cleared yields a fresh pair; the gateway answers the second POST with 200 and a JSON
  body. Then \<open>graphqlRequest\<close> returns the body of the second POST and has sent exactly two
  POSTs. Between them it has sent one bootstrap GET, and one more before the first POST
  when no pair was cached: three or four calls of \<open>fetch\<close> in all. The fresh pair is cached
  afterwards.
\<close>

theorem csrf_retry_once:
  assumes "getCsrfToken e serve w = (Inr csrf, w1)"
    and "fetch serve (post_request e csrf query vars headers) w1 = (Responded r1, w2)"
    and "status r1 = 403" and "body r1 = Some b1" and "message_includes_CSRF b1 = Inr True"
    and "getCsrfToken e serve (clearCsrfToken w2) = (Inr newCsrf, w3)"
    and "fetch serve (post_request e newCsrf query vars headers) w3 = (Responded r2, w4)"
    and "status r2 = 200" and "body r2 = Some b2"
  shows "graphqlRequest e serve query vars headers w = (Inr b2, w4)
       \<and> posts_sent w4 = posts_sent w + 2
       \<and> sent w4 = sent w @ (if cached_pair w = None then [csrf_bootstrap_request e] else [])
                     @ [post_request e csrf query vars headers, csrf_bootstrap_request e,
                        post_request e newCsrf query vars headers]
       \<and> length (sent w4) = length (sent w) + (if cached_pair w = None then 4 else 3)
       \<and> cached_pair w4 = Some newCsrf"
proof -
  have "graphqlRequest e serve query vars headers w = retry_once e serve query vars headers w2"
    using graphqlRequest_first_response [OF assms(1,2)] handle_response_retry [OF assms(3,4,5)]
    by simp
  also have "\<dots> = (response_json r2, w4)"
    by (rule retry_once_second_response [OF assms(6,7)])
  finally have res: "graphqlRequest e serve query vars headers w = (Inr b2, w4)"
    by (simp add: response_json_def assms(9))
  have s2: "sent w2 = sent w @ (if cached_pair w = None then [csrf_bootstrap_request e] else [])
                     @ [post_request e csrf query vars headers]"
    by (rule first_post_world(1) [OF assms(1,2)])
  have s3: "sent w3 = sent w2 @ [csrf_bootstrap_request e]"
    using getCsrfToken_sent [OF assms(6)] by (simp add: cached_pair_clear sent_clear)
  have s4: "sent w4 = sent w3 @ [post_request e newCsrf query vars headers]"
    by (rule fetch_world(1) [OF assms(7)])
  have sent: "sent w4 = sent w @ (if cached_pair w = None then [csrf_bootstrap_request e] else [])
                     @ [post_request e csrf query vars headers, csrf_bootstrap_request e,
                        post_request e newCsrf query vars headers]"
    by (simp add: s4 s3 s2)
  have posts: "posts_sent w4 = posts_sent w + 2"
    using first_post_world(2) [OF assms(1,2)] posts_sent_getCsrfToken [OF assms(6)]
      posts_sent_post [OF assms(7)]
    by (simp add: posts_sent_clear)
  have len: "length (sent w4) = length (sent w) + (if cached_pair w = None then 4 else 3)"
    by (simp add: sent)
  have cache: "cached_pair w4 = Some newCsrf"
    using cached_pair_fetch [OF assms(7)] getCsrfToken_caches [OF assms(6)] by simp
  from res posts sent len cache show ?thesis by blast
qed

theorem csrf_retry_once_witness:
  "fst (graphqlRequest testEnv (scriptedGateway (Some cookieHeader) [csrf403, ok200]) meQuery None
          noHeaders warmWorld) = Inr (JObj [(''data'', JObj [])]) \<and>
   posts_sent (snd (graphqlRequest testEnv (scriptedGateway (Some cookieHeader) [csrf403, ok200])
          meQuery None noHeaders warmWorld)) = 2 \<and>
   length (sent (snd (graphqlRequest testEnv (scriptedGateway (Some cookieHeader) [csrf403, ok200])
          meQuery None noHeaders warmWorld))) = 3"
proof -
  let ?gw = "scriptedGateway (Some cookieHeader) [csrf403, ok200]"
  let ?csrf = "\<lparr>token = ''stale'', cookie = ''csrf-token=stale''\<rparr>"
  let ?new = "\<lparr>token = ''abc123'', cookie = ''csrf-token=abc123''\<rparr>"
  let ?post1 = "post_request testEnv ?csrf meQuery None noHeaders"
  let ?post2 = "post_request testEnv ?new meQuery None noHeaders"
  let ?w2 = "snd (fetch ?gw ?post1 warmWorld)"
  let ?w3 = "snd (getCsrfToken testEnv ?gw (clearCsrfToken ?w2))"
  let ?w4 = "snd (fetch ?gw ?post2 ?w3)"
  let ?b1 = "JObj [(''statusCode'', JNum 403), (''message'', JStr ''invalid CSRF token'')]"
  let ?b2 = "JObj [(''data'', JObj [])]"
  have cp: "cached_pair warmWorld = Some ?csrf" by (simp add: cached_pair_def warmWorld_def)
  have h1: "getCsrfToken testEnv ?gw warmWorld = (Inr ?csrf, warmWorld)"
    by (rule getCsrfToken_hit [OF cp])
  have "fst (fetch ?gw ?post1 warmWorld) = Responded csrf403" by code_simp
  then have h2: "fetch ?gw ?post1 warmWorld = (Responded csrf403, ?w2)" by (metis prod.collapse)
  have h3: "status csrf403 = 403" by (simp add: csrf403_def)
  have h4: "body csrf403 = Some ?b1" by (simp add: csrf403_def)
  have h5: "message_includes_CSRF ?b1 = Inr True" by code_simp
  have "fst (getCsrfToken testEnv ?gw (clearCsrfToken ?w2)) = Inr ?new" by code_simp
  then have h6: "getCsrfToken testEnv ?gw (clearCsrfToken ?w2) = (Inr ?new, ?w3)" by (metis prod.collapse)
  have "fst (fetch ?gw ?post2 ?w3) = Responded ok200" by code_simp
  then have h7: "fetch ?gw ?post2 ?w3 = (Responded ok200, ?w4)" by (metis prod.collapse)
  have h8: "status ok200 = 200" by (simp add: ok200_def)
  have h9: "body ok200 = Some ?b2" by (simp add: ok200_def)
  have z: "posts_sent warmWorld = 0" "length (sent warmWorld) = 0"
    by (simp_all add: posts_sent_def warmWorld_def)
  from csrf_retry_once [OF h1 h2 h3 h4 h5 h6 h7 h8 h9]
  have "graphqlRequest testEnv ?gw meQuery None noHeaders warmWorld = (Inr ?b2, ?w4)"
    and "posts_sent ?w4 = posts_sent warmWorld + 2"
    and "length (sent ?w4) = length (sent warmWorld) + (if cached_pair warmWorld = None then 4 else 3)"
    by blast+
  then show ?thesis by (simp add: z cp)
qed

text \<open>
  C1, as stated, fails: with a pair in the cache, a gateway that answers the first POST
  with a CSRF 403 and the second with 200 sees three calls (POST, GET, POST), not two, and
  the body returned is that of the third call.
\<close>

theorem csrf_retry_three_calls_counterexample:
  "fst (graphqlRequest testEnv (scriptedGateway (Some cookieHeader) [csrf403, ok200]) meQuery None
          noHeaders warmWorld) = Inr (JObj [(''data'', JObj [])]) \<and>
   map fetch_method (sent (snd (graphqlRequest testEnv (scriptedGateway (Some cookieHeader) [csrf403, ok200])
          meQuery None noHeaders warmWorld))) = [''POST'', ''GET'', ''POST''] \<and>
   length (sent (snd (graphqlRequest testEnv (scriptedGateway (Some cookieHeader) [csrf403, ok200])
          meQuery None noHeaders warmWorld))) = 3"
  by code_simp

text \<open>
  C4, amended. The first acquisition of a CSRF pair succeeds and the gateway answers the
  first POST with a 403 that has a JSON body. If \<open>message?.includes('CSRF')\<close> is false for
  the body, \<open>graphqlRequest\<close> returns that body after exactly one POST and no further call;
  one bootstrap GET went before the POST when no pair was cached. A further call is made
  after the first POST exactly when \<open>message?.includes('CSRF')\<close> is true. For a body whose
  message is a string, that is exactly when \<open>CSRF\<close> is a substring of the message; a body
  whose message is missing or null never triggers it.
\<close>

theorem non_csrf_403_not_retried:
  assumes "getCsrfToken e serve w = (Inr csrf, w1)"
    and "fetch serve (post_request e csrf query vars headers) w1 = (Responded r, w2)"
    and "status r = 403" and "body r = Some errorBody"
  shows "(message_includes_CSRF errorBody = Inr False \<longrightarrow>
            graphqlRequest e serve query vars headers w = (Inr errorBody, w2)
            \<and> posts_sent w2 = posts_sent w + 1
            \<and> length (sent w2) = length (sent w) + (if cached_pair w = None then 2 else 1))
       \<and> (length (sent w2) < length (sent (snd (graphqlRequest e serve query vars headers w)))
            \<longleftrightarrow> message_includes_CSRF errorBody = Inr True)
       \<and> (\<forall>props m. errorBody = JObj props \<and> map_of props ''message'' = Some (JStr m) \<longrightarrow>
              message_includes_CSRF errorBody = Inr (sublist ''CSRF'' m))
       \<and> (\<forall>props. errorBody = JObj props
              \<and> (map_of props ''message'' = None \<or> map_of props ''message'' = Some JNull) \<longrightarrow>
              message_includes_CSRF errorBody = Inr False)"
proof -
  note first = graphqlRequest_first_response [OF assms(1,2)]
  have a: "message_includes_CSRF errorBody = Inr False \<Longrightarrow>
            graphqlRequest e serve query vars headers w = (Inr errorBody, w2)"
    using first handle_response_error_body [OF assms(3,4)] by simp
  have b: "posts_sent w2 = posts_sent w + 1"
    by (rule first_post_world(2) [OF assms(1,2)])
  have c: "length (sent w2) = length (sent w) + (if cached_pair w = None then 2 else 1)"
    using first_post_world(1) [OF assms(1,2)] by simp
  have d: "length (sent w2) < length (sent (snd (graphqlRequest e serve query vars headers w)))
            \<longleftrightarrow> message_includes_CSRF errorBody = Inr True"
  proof (cases "message_includes_CSRF errorBody = Inr True")
    case True
    from first handle_response_retry [OF assms(3,4) True]
    have "graphqlRequest e serve query vars headers w = retry_once e serve query vars headers w2"
      by simp
    moreover obtain rest where
      "sent (snd (retry_once e serve query vars headers w2)) = sent w2 @ csrf_bootstrap_request e # rest"
      using retry_once_fetches by blast
    ultimately show ?thesis using True by simp
  next
    case False
    with assms(4) have "\<not> (status r = 403 \<and> (\<exists>b. body r = Some b \<and> message_includes_CSRF b = Inr True))"
      by simp
    from handle_response_final [OF this] first
    have "snd (graphqlRequest e serve query vars headers w) = w2" by simp
    with False show ?thesis by simp
  qed
  from a b c d show ?thesis
    by (simp add: message_includes_CSRF_string message_includes_CSRF_absent)
qed

theorem non_csrf_403_not_retried_witness:
  "message_includes_CSRF (JObj [(''statusCode'', JNum 403), (''message'', JStr ''Forbidden'')]) = Inr False \<and>
   fst (graphqlRequest testEnv (scriptedGateway (Some cookieHeader) [forbidden403, ok200]) meQuery None
          noHeaders warmWorld)
     = Inr (JObj [(''statusCode'', JNum 403), (''message'', JStr ''Forbidden'')]) \<and>
   posts_sent (snd (graphqlRequest testEnv (scriptedGateway (Some cookieHeader) [forbidden403, ok200])
          meQuery None noHeaders warmWorld)) = 1 \<and>
   length (sent (snd (graphqlRequest testEnv (scriptedGateway (Some cookieHeader) [forbidden403, ok200])
          meQuery None noHeaders warmWorld))) = 1"
proof -
  let ?gw = "scriptedGateway (Some cookieHeader) [forbidden403, ok200]"
  let ?csrf = "\<lparr>token = ''stale'', cookie = ''csrf-token=stale''\<rparr>"
  let ?post1 = "post_request testEnv ?csrf meQuery None noHeaders"
  let ?w2 = "snd (fetch ?gw ?post1 warmWorld)"
  let ?b = "JObj [(''statusCode'', JNum 403), (''message'', JStr ''Forbidden'')]"
  have cp: "cached_pair warmWorld = Some ?csrf" by (simp add: cached_pair_def warmWorld_def)
  have h1: "getCsrfToken testEnv ?gw warmWorld = (Inr ?csrf, warmWorld)"
    by (rule getCsrfToken_hit [OF cp])
  have "fst (fetch ?gw ?post1 warmWorld) = Responded forbidden403" by code_simp
  then have h2: "fetch ?gw ?post1 warmWorld = (Responded forbidden403, ?w2)" by (metis prod.collapse)
  have h3: "status forbidden403 = 403" by (simp add: forbidden403_def)
  have h4: "body forbidden403 = Some ?b" by (simp add: forbidden403_def)
  have h5: "message_includes_CSRF ?b = Inr False" by code_simp
  have z: "posts_sent warmWorld = 0" "length (sent warmWorld) = 0"
    by (simp_all add: posts_sent_def warmWorld_def)
  from non_csrf_403_not_retried [OF h1 h2 h3 h4] h5
  have "graphqlRequest testEnv ?gw meQuery None noHeaders warmWorld = (Inr ?b, ?w2)"
    and "posts_sent ?w2 = posts_sent warmWorld + 1"
    and "length (sent ?w2) = length (sent warmWorld) + (if cached_pair warmWorld = None then 2 else 1)"
    by blast+
  with h5 show ?thesis by (simp add: z cp)
qed

text \<open>
  C4, as stated, fails when no pair is cached: the gateway answers the first POST with a
  403 whose message does not mention CSRF, and two calls are made (GET, POST), not one.
\<close>

theorem non_csrf_403_two_calls_counterexample:
  "fst (graphqlRequest testEnv (scriptedGateway (Some cookieHeader) [forbidden403, ok200]) meQuery None
          noHeaders coldWorld)
     = Inr (JObj [(''statusCode'', JNum 403), (''message'', JStr ''Forbidden'')]) \<and>
   map fetch_method (sent (snd (graphqlRequest testEnv (scriptedGateway (Some cookieHeader) [forbidden403, ok200])
          meQuery None noHeaders coldWorld))) = [''GET'', ''POST''] \<and>
   length (sent (snd (graphqlRequest testEnv (scriptedGateway (Some cookieHeader) [forbidden403, ok200])
          meQuery None noHeaders coldWorld))) = 2"
  by code_simp

text \<open>
  C5. Whatever the gateway does, one call of \<open>graphqlRequest\<close> adds at most two POSTs (and at
  most four calls) to the log, all to the gateway's endpoint. When the first POST was
  answered by a CSRF 403 and the retry is answered, the retry's body is the result,
  whatever its status, and nothing more is sent. When the first POST is answered by
  anything but a CSRF 403, or the network fails, nothing is sent after it.
\<close>

theorem graphqlRequest_at_most_two_posts:
  "posts_sent (snd (graphqlRequest e serve query vars headers w)) \<le> posts_sent w + 2
   \<and> (\<exists>new. sent (snd (graphqlRequest e serve query vars headers w)) = sent w @ new
          \<and> length new \<le> 4
          \<and> length (filter (\<lambda>rq. fetch_method rq = ''POST'') new) \<le> 2
          \<and> list_all (\<lambda>rq. fetch_url rq = API_GATEWAY_URL e @ API_GATEWAY_PATH) new)
   \<and> (\<forall>csrf w1 r1 w2 b1 newCsrf w3 r2 w4.
          getCsrfToken e serve w = (Inr csrf, w1)
          \<and> fetch serve (post_request e csrf query vars headers) w1 = (Responded r1, w2)
          \<and> status r1 = 403 \<and> body r1 = Some b1 \<and> message_includes_CSRF b1 = Inr True
          \<and> getCsrfToken e serve (clearCsrfToken w2) = (Inr newCsrf, w3)
          \<and> fetch serve (post_request e newCsrf query vars headers) w3 = (Responded r2, w4)
          \<longrightarrow> graphqlRequest e serve query vars headers w = (response_json r2, w4)
              \<and> posts_sent w4 = posts_sent w + 2)
   \<and> (\<forall>csrf w1 r1 w2.
          getCsrfToken e serve w = (Inr csrf, w1)
          \<and> fetch serve (post_request e csrf query vars headers) w1 = (Responded r1, w2)
          \<and> \<not> (status r1 = 403 \<and> (\<exists>b. body r1 = Some b \<and> message_includes_CSRF b = Inr True))
          \<longrightarrow> snd (graphqlRequest e serve query vars headers w) = w2
              \<and> posts_sent w2 = posts_sent w + 1)
   \<and> (\<forall>csrf w1 w2.
          getCsrfToken e serve w = (Inr csrf, w1)
          \<and> fetch serve (post_request e csrf query vars headers) w1 = (Rejected, w2)
          \<longrightarrow> graphqlRequest e serve query vars headers w = (Inl NetworkError, w2)
              \<and> posts_sent w2 = posts_sent w + 1)"
proof -
  let ?w' = "snd (graphqlRequest e serve query vars headers w)"
  have g: "log_grows e 4 2 w ?w'" by (rule log_grows_graphqlRequest)
  have 1: "posts_sent ?w' \<le> posts_sent w + 2" by (rule log_grows_posts [OF g])
  have 2: "\<exists>new. sent ?w' = sent w @ new
          \<and> length new \<le> 4
          \<and> length (filter (\<lambda>rq. fetch_method rq = ''POST'') new) \<le> 2
          \<and> list_all (\<lambda>rq. fetch_url rq = API_GATEWAY_URL e @ API_GATEWAY_PATH) new"
    using g unfolding log_grows_def .
  have 3: "graphqlRequest e serve query vars headers w = (response_json r2, w4)
              \<and> posts_sent w4 = posts_sent w + 2"
    if "getCsrfToken e serve w = (Inr csrf, w1)"
      "fetch serve (post_request e csrf query vars headers) w1 = (Responded r1, w2)"
      "status r1 = 403" "body r1 = Some b1" "message_includes_CSRF b1 = Inr True"
      "getCsrfToken e serve (clearCsrfToken w2) = (Inr newCsrf, w3)"
      "fetch serve (post_request e newCsrf query vars headers) w3 = (Responded r2, w4)"
    for csrf w1 r1 w2 b1 newCsrf w3 r2 w4
  proof -
    have "graphqlRequest e serve query vars headers w = retry_once e serve query vars headers w2"
      using graphqlRequest_first_response [OF that(1,2)] handle_response_retry [OF that(3,4,5)]
      by simp
    then have "graphqlRequest e serve query vars headers w = (response_json r2, w4)"
      using retry_once_second_response [OF that(6,7)] by simp
    moreover have "posts_sent w4 = posts_sent w + 2"
      using first_post_world(2) [OF that(1,2)] posts_sent_getCsrfToken [OF that(6)]
        posts_sent_post [OF that(7)]
      by (simp add: posts_sent_clear)
    ultimately show ?thesis by simp
  qed
  have 4: "snd (graphqlRequest e serve query vars headers w) = w2 \<and> posts_sent w2 = posts_sent w + 1"
    if "getCsrfToken e serve w = (Inr csrf, w1)"
      "fetch serve (post_request e csrf query vars headers) w1 = (Responded r1, w2)"
      "\<not> (status r1 = 403 \<and> (\<exists>b. body r1 = Some b \<and> message_includes_CSRF b = Inr True))"
    for csrf w1 r1 w2
    using graphqlRequest_first_response [OF that(1,2)] handle_response_final [OF that(3)]
      first_post_world(2) [OF that(1,2)]
    by simp
  have 5: "graphqlRequest e serve query vars headers w = (Inl NetworkError, w2)
              \<and> posts_sent w2 = posts_sent w + 1"
    if "getCsrfToken e serve w = (Inr csrf, w1)"
      "fetch serve (post_request e csrf query vars headers) w1 = (Rejected, w2)"
    for csrf w1 w2
    using that first_post_world(2) [OF that] by (simp add: graphqlRequest_def)
  from 1 2 3 4 5 show ?thesis by blast
qed

theorem graphqlRequest_at_most_two_posts_witness:
  "fst (graphqlRequest testEnv (scriptedGateway (Some cookieHeader) [csrf403, csrf403, ok200]) meQuery None
          noHeaders warmWorld)
     = Inr (JObj [(''statusCode'', JNum 403), (''message'', JStr ''invalid CSRF token'')]) \<and>
   posts_sent (snd (graphqlRequest testEnv (scriptedGateway (Some cookieHeader) [csrf403, csrf403, ok200])
          meQuery None noHeaders warmWorld)) = 2 \<and>
   gateway_state (snd (graphqlRequest testEnv (scriptedGateway (Some cookieHeader) [csrf403, csrf403, ok200])
          meQuery None noHeaders warmWorld)) = 2"
proof -
  let ?gw = "scriptedGateway (Some cookieHeader) [csrf403, csrf403, ok200]"
  let ?csrf = "\<lparr>token = ''stale'', cookie = ''csrf-token=stale''\<rparr>"
  let ?new = "\<lparr>token = ''abc123'', cookie = ''csrf-token=abc123''\<rparr>"
  let ?post1 = "post_request testEnv ?csrf meQuery None noHeaders"
  let ?post2 = "post_request testEnv ?new meQuery None noHeaders"
  let ?w2 = "snd (fetch ?gw ?post1 warmWorld)"
  let ?w3 = "snd (getCsrfToken testEnv ?gw (clearCsrfToken ?w2))"
  let ?w4 = "snd (fetch ?gw ?post2 ?w3)"
  let ?b1 = "JObj [(''statusCode'', JNum 403), (''message'', JStr ''invalid CSRF token'')]"
  have cp: "cached_pair warmWorld = Some ?csrf" by (simp add: cached_pair_def warmWorld_def)
  have h1: "getCsrfToken testEnv ?gw warmWorld = (Inr ?csrf, warmWorld)"
    by (rule getCsrfToken_hit [OF cp])
  have "fst (fetch ?gw ?post1 warmWorld) = Responded csrf403" by code_simp
  then have h2: "fetch ?gw ?post1 warmWorld = (Responded csrf403, ?w2)" by (metis prod.collapse)
  have h3: "status csrf403 = 403" by (simp add: csrf403_def)
  have h4: "body csrf403 = Some ?b1" by (simp add: csrf403_def)
  have h5: "message_includes_CSRF ?b1 = Inr True" by code_simp
  have "fst (getCsrfToken testEnv ?gw (clearCsrfToken ?w2)) = Inr ?new" by code_simp
  then have h6: "getCsrfToken testEnv ?gw (clearCsrfToken ?w2) = (Inr ?new, ?w3)" by (metis prod.collapse)
  have "fst (fetch ?gw ?post2 ?w3) = Responded csrf403" by code_simp
  then have h7: "fetch ?gw ?post2 ?w3 = (Responded csrf403, ?w4)" by (metis prod.collapse)
  have z: "posts_sent warmWorld = 0" by (simp add: posts_sent_def warmWorld_def)
  have gs: "gateway_state ?w4 = 2" by code_simp
  note retried = graphqlRequest_at_most_two_posts
    [of testEnv ?gw meQuery None noHeaders warmWorld,
     THEN conjunct2, THEN conjunct2, THEN conjunct1, rule_format]
  have "graphqlRequest testEnv ?gw meQuery None noHeaders warmWorld = (response_json csrf403, ?w4)
          \<and> posts_sent ?w4 = posts_sent warmWorld + 2"
    by (rule retried)
      (rule conjI, rule h1, rule conjI, rule h2, rule conjI, rule h3, rule conjI, rule h4,
       rule conjI, rule h5, rule conjI, rule h6, rule h7)
  then show ?thesis by (simp add: z gs response_json_def h4)
qed

section \<open>The HMAC header\<close>

lemma quoted_keys:
  "json_quote ''username'' = ''\"username\"''"
  "json_quote ''algorithm'' = ''\"algorithm\"''"
  "json_quote ''headers'' = ''\"headers\"''"
  "json_quote ''signature'' = ''\"signature\"''"
  "json_quote ''hmac-sha256'' = ''\"hmac-sha256\"''"
  "json_quote ''@request-target,content-type'' = ''\"@request-target,content-type\"''"
  "json_quote ''api-gateway'' = ''\"api-gateway\"''"
  by code_simp+

lemma JSON_stringify_credentials:
  "JSON_stringify [(''username'', u), (''algorithm'', ''hmac-sha256''),
                   (''headers'', ''@request-target,content-type''), (''signature'', s)] =
     ''{\"username\":'' @ json_quote u
       @ '',\"algorithm\":\"hmac-sha256\",\"headers\":\"@request-target,content-type\",\"signature\":''
       @ json_quote s @ ''}''"
  by (simp add: JSON_stringify_def quoted_keys)

lemma testEnv_hmac: "HMAC_SECRET testEnv = ''s3cr3t''" "HMAC_CLIENT_ID testEnv = ''api-gateway''"
  by code_simp+

lemma toLowerCase_POST: "toLowerCase rt ''POST'' = ''post''"
proof -
  have "is_ascii ''POST''" by code_simp
  moreover have "map toLowerCase_char ''POST'' = ''post''" by code_simp
  ultimately show ?thesis by (simp add: toLowerCase_def)
qed

text \<open>
  C2. For every method, path and content type, \<open>generateHmacHeader\<close> returns \<open>HMAC\<close>, a space,
  and the JSON text of the object with the properties \<open>username\<close> (the client id),
  \<open>algorithm\<close> (\<open>hmac-sha256\<close>), \<open>headers\<close> (\<open>@request-target,content-type\<close>) and \<open>signature\<close>, in
  this order. The signature is the keyed hash, under the secret, of the lowercased method,
  a space, the path, a newline, \<open>content-type:\<close>, a space and the content type. The
  lowercased method is what \<open>toLowerCase\<close> gives: for an ASCII method, the method with \<open>A\<close> to
  \<open>Z\<close> moved to \<open>a\<close> to \<open>z\<close>. With the secret \<open>s3cr3t\<close>, the method \<open>POST\<close>, the path \<open>/graphql\<close>
  and the content type \<open>application/json\<close>, the hash is taken over \<open>post /graphql\<close>, a newline
  and \<open>content-type: application/json\<close>. A missing content type counts as
  \<open>application/json\<close>.
\<close>

theorem generateHmacHeader_format:
  "generateHmacHeader rt e method path (Some contentType) =
     ''HMAC '' @ JSON_stringify
        [(''username'', HMAC_CLIENT_ID e), (''algorithm'', ''hmac-sha256''),
         (''headers'', ''@request-target,content-type''),
         (''signature'',
            hmac_sha256_base64 rt (HMAC_SECRET e)
              (toLowerCase rt method @ '' '' @ path @ [CHR 0x0A] @ ''content-type: '' @ contentType))]
   \<and> generateHmacHeader rt e method path (Some contentType) =
     ''HMAC {\"username\":'' @ json_quote (HMAC_CLIENT_ID e)
       @ '',\"algorithm\":\"hmac-sha256\",\"headers\":\"@request-target,content-type\",\"signature\":''
       @ json_quote
           (hmac_sha256_base64 rt (HMAC_SECRET e)
              (toLowerCase rt method @ '' '' @ path @ [CHR 0x0A] @ ''content-type: '' @ contentType))
       @ ''}''
   \<and> (is_ascii method \<longrightarrow> toLowerCase rt method = map toLowerCase_char method)
   \<and> generateHmacHeader rt testEnv ''POST'' ''/graphql'' (Some ''application/json'') =
     ''HMAC {\"username\":\"api-gateway\",\"algorithm\":\"hmac-sha256\",\"headers\":\"@request-target,content-type\",\"signature\":''
       @ json_quote (hmac_sha256_base64 rt ''s3cr3t''
                       (''post /graphql'' @ [CHR 0x0A] @ ''content-type: application/json''))
       @ ''}''
   \<and> generateHmacHeader rt e method path None =
       generateHmacHeader rt e method path (Some ''application/json'')"
proof -
  have 1: "generateHmacHeader rt e' m p (Some c) =
     ''HMAC '' @ JSON_stringify
        [(''username'', HMAC_CLIENT_ID e'), (''algorithm'', ''hmac-sha256''),
         (''headers'', ''@request-target,content-type''),
         (''signature'',
            hmac_sha256_base64 rt (HMAC_SECRET e')
              (toLowerCase rt m @ '' '' @ p @ [CHR 0x0A] @ ''content-type: '' @ c))]"
    for e' m p c
    by (simp add: generateHmacHeader_def)
  have 2: "generateHmacHeader rt e' m p (Some c) =
     ''HMAC {\"username\":'' @ json_quote (HMAC_CLIENT_ID e')
       @ '',\"algorithm\":\"hmac-sha256\",\"headers\":\"@request-target,content-type\",\"signature\":''
       @ json_quote (hmac_sha256_base64 rt (HMAC_SECRET e')
                       (toLowerCase rt m @ '' '' @ p @ [CHR 0x0A] @ ''content-type: '' @ c))
       @ ''}''"
    for e' m p c
    unfolding 1 JSON_stringify_credentials by simp
  have 3: "generateHmacHeader rt testEnv ''POST'' ''/graphql'' (Some ''application/json'') =
     ''HMAC {\"username\":\"api-gateway\",\"algorithm\":\"hmac-sha256\",\"headers\":\"@request-target,content-type\",\"signature\":''
       @ json_quote (hmac_sha256_base64 rt ''s3cr3t''
                       (''post /graphql'' @ [CHR 0x0A] @ ''content-type: application/json''))
       @ ''}''"
    unfolding 2 testEnv_hmac toLowerCase_POST quoted_keys by simp
  have 4: "generateHmacHeader rt e method path None =
       generateHmacHeader rt e method path (Some ''application/json'')"
    by (simp add: generateHmacHeader_def)
  have 5: "is_ascii method \<longrightarrow> toLowerCase rt method = map toLowerCase_char method"
    by (simp add: toLowerCase_def)
  from 1 2 3 4 5 show ?thesis by blast
qed

theorem generateHmacHeader_format_witness:
  "is_ascii ''POST'' \<and> toLowerCase testRuntime ''POST'' = ''post'' \<and>
   generateHmacHeader testRuntime testEnv ''POST'' ''/graphql'' (Some ''application/json'') =
     ''HMAC {\"username\":\"api-gateway\",\"algorithm\":\"hmac-sha256\",\"headers\":\"@request-target,content-type\",\"signature\":\"b64(s3cr3t|post /graphql''
       @ [CHR 0x5C, CHR ''n''] @ ''content-type: application/json)\"}''"
proof -
  have a: "is_ascii ''POST''" by code_simp
  have l: "map toLowerCase_char ''POST'' = ''post''" by code_simp
  have h: "hmac_sha256_base64 testRuntime = tagHmac" by (simp add: testRuntime_def)
  have q: "json_quote (tagHmac ''s3cr3t'' (''post /graphql'' @ [CHR 0x0A] @ ''content-type: application/json''))
             = ''\"b64(s3cr3t|post /graphql'' @ [CHR 0x5C, CHR ''n''] @ ''content-type: application/json)\"''"
    by code_simp
  note T = generateHmacHeader_format [of testRuntime testEnv "''POST''" "''/graphql''" "''application/json''"]
  from T a have low: "toLowerCase testRuntime ''POST'' = map toLowerCase_char ''POST''" by blast
  from T
  have "generateHmacHeader testRuntime testEnv ''POST'' ''/graphql'' (Some ''application/json'') =
     ''HMAC {\"username\":\"api-gateway\",\"algorithm\":\"hmac-sha256\",\"headers\":\"@request-target,content-type\",\"signature\":''
       @ json_quote (hmac_sha256_base64 testRuntime ''s3cr3t''
                       (''post /graphql'' @ [CHR 0x0A] @ ''content-type: application/json''))
       @ ''}''"
    by blast
  then have "generateHmacHeader testRuntime testEnv ''POST'' ''/graphql'' (Some ''application/json'') =
     ''HMAC {\"username\":\"api-gateway\",\"algorithm\":\"hmac-sha256\",\"headers\":\"@request-target,content-type\",\"signature\":\"b64(s3cr3t|post /graphql''
       @ [CHR 0x5C, CHR ''n''] @ ''content-type: application/json)\"}''"
    unfolding h q by simp
  with a low l show ?thesis by simp
qed

section \<open>Sync results\<close>

lemma created_plus_updated:
  "length (filter (\<lambda>p. externalId p \<notin> S) items) + length (filter (\<lambda>p. externalId p \<in> S) items)
     = length items"
  using sum_length_filter_compl [of "\<lambda>p. externalId p \<in> S" items] by simp

lemma bulk_sync_counts:
  assumes "bulk_sync src db = (Inr c, db')"
  shows "processed c = created c + updated c"
  using assms
  by (auto simp: bulk_sync_def Let_def created_plus_updated
      split: sum.splits if_splits prod.splits option.splits)

lemma syncHandlers_counts:
  "syncHandlers svc dt db = (Inr c, db') \<Longrightarrow> processed c = created c + updated c"
  by (cases dt)
    (auto simp: syncHandlers_def syncPropositions_def syncMeetings_def syncRepresentatives_def
          dest: bulk_sync_counts)

lemma syncDataType_result:
  assumes "syncDataType svc now dt db = (Inr r, db')"
  shows "errors r = [] \<and> itemsProcessed r = itemsCreated r + itemsUpdated r \<and> dataType r = dt"
proof -
  obtain res db1 where h: "syncHandlers svc dt db = (res, db1)" by (cases "syncHandlers svc dt db")
  with assms obtain c where c: "res = Inr c"
    and r: "r = \<lparr>dataType = dt, itemsProcessed = processed c, itemsCreated = created c,
                itemsUpdated = updated c, errors = [], syncedAt = now\<rparr>"
    by (auto simp: syncDataType_def split: sum.splits)
  from syncHandlers_counts [OF h [unfolded c]] r show ?thesis by simp
qed

lemma syncAll_loop_results:
  "r \<in> set (fst (syncAll_loop svc now dts db)) \<Longrightarrow> errors r = [] \<Longrightarrow>
     itemsProcessed r = itemsCreated r + itemsUpdated r"
proof (induction dts arbitrary: db)
  case Nil
  then show ?case by simp
next
  case (Cons dt dts)
  obtain res db1 where s: "syncDataType svc now dt db = (res, db1)"
    by (cases "syncDataType svc now dt db")
  obtain rs db2 where l: "syncAll_loop svc now dts db1 = (rs, db2)"
    by (cases "syncAll_loop svc now dts db1")
  show ?case
  proof (cases res)
    case (Inl err)
    with s l Cons.prems have "r \<in> set rs" by auto
    with Cons.IH [of db1] l Cons.prems(2) show ?thesis by simp
  next
    case (Inr result)
    with s l Cons.prems(1) have "r = result \<or> r \<in> set rs" by auto
    then show ?thesis
    proof
      assume "r = result"
      with syncDataType_result [OF s [unfolded Inr]] show ?thesis by simp
    next
      assume "r \<in> set rs"
      with Cons.IH [of db1] l Cons.prems(2) show ?thesis by simp
    qed
  qed
qed

text \<open>
  C9. Every \<open>SyncResult\<close> that \<open>syncDataType\<close> returns, for any data type, provider and
  repository, has no errors and has as many processed items as created and updated items
  together. Every result of \<open>syncAll\<close> without errors satisfies the same equation.
\<close>

theorem sync_result_invariant:
  "(\<forall>r db'. syncDataType svc now dt db = (Inr r, db') \<longrightarrow>
       errors r = [] \<and> itemsProcessed r = itemsCreated r + itemsUpdated r)
   \<and> (\<forall>r \<in> set (fst (syncAll svc now db)).
         errors r = [] \<longrightarrow> itemsProcessed r = itemsCreated r + itemsUpdated r)"
  using syncDataType_result [of svc now dt db] syncAll_loop_results [of _ svc now "getSupportedDataTypes svc" db]
  by (simp add: syncAll_def)

theorem sync_result_invariant_witness:
  "fst (syncDataType testRegion 7 PROPOSITIONS [''prop-1'']) =
     Inr \<lparr>dataType = PROPOSITIONS, itemsProcessed = 2, itemsCreated = 1, itemsUpdated = 1,
           errors = [], syncedAt = 7\<rparr> \<and>
   errors \<lparr>dataType = PROPOSITIONS, itemsProcessed = 2, itemsCreated = 1, itemsUpdated = 1,
           errors = [], syncedAt = 7\<rparr> = [] \<and>
   itemsProcessed \<lparr>dataType = PROPOSITIONS, itemsProcessed = 2, itemsCreated = 1, itemsUpdated = 1,
           errors = [], syncedAt = 7\<rparr> = 1 + 1"
proof -
  let ?r = "\<lparr>dataType = PROPOSITIONS, itemsProcessed = 2, itemsCreated = 1, itemsUpdated = 1,
           errors = [], syncedAt = 7\<rparr>"
  have 1: "fst (syncDataType testRegion 7 PROPOSITIONS [''prop-1'']) = Inr ?r" by code_simp
  then have "syncDataType testRegion 7 PROPOSITIONS [''prop-1''] =
               (Inr ?r, snd (syncDataType testRegion 7 PROPOSITIONS [''prop-1'']))"
    by (metis prod.collapse)
  with sync_result_invariant [of testRegion 7 PROPOSITIONS "[''prop-1'']"]
  have "errors ?r = [] \<and> itemsProcessed ?r = itemsCreated ?r + itemsUpdated ?r" by blast
  with 1 show ?thesis by simp
qed

end
